theory Spec2Isabelle
  imports Main "HOL-Library.Sublist"
begin

section \<open>Event, message and error data model (package models)\<close>

text \<open>
  \<^verbatim>\<open>type SseEventType string\<close>: the event type is a plain string on the wire and in
  memory.  The constant block of the source declares ten values.
\<close>

type_synonym SseEventType = string

definition SseEventTypeRunInit :: SseEventType where
  "SseEventTypeRunInit = ''asgard.run.init''"

definition SseEventTypeRunDone :: SseEventType where
  "SseEventTypeRunDone = ''asgard.run.done''"

definition SseEventTypeRunError :: SseEventType where
  "SseEventTypeRunError = ''asgard.run.error''"

definition SseEventTypeProcessStart :: SseEventType where
  "SseEventTypeProcessStart = ''asgard.process.start''"

definition SseEventTypeProcessComplete :: SseEventType where
  "SseEventTypeProcessComplete = ''asgard.process.complete''"

definition SseEventTypeMessageStart :: SseEventType where
  "SseEventTypeMessageStart = ''asgard.message.start''"

definition SseEventTypeMessageDelta :: SseEventType where
  "SseEventTypeMessageDelta = ''asgard.message.delta''"

definition SseEventTypeMessageComplete :: SseEventType where
  "SseEventTypeMessageComplete = ''asgard.message.complete''"

definition SseEventTypeToolCallStart :: SseEventType where
  "SseEventTypeToolCallStart = ''asgard.tool_call.start''"

definition SseEventTypeToolCallComplete :: SseEventType where
  "SseEventTypeToolCallComplete = ''asgard.tool_call.complete''"

text \<open>The constant block, in declaration order.\<close>

definition SseEventType_consts :: "SseEventType list" where
  "SseEventType_consts =
     [SseEventTypeRunInit, SseEventTypeRunDone, SseEventTypeRunError,
      SseEventTypeProcessStart, SseEventTypeProcessComplete,
      SseEventTypeMessageStart, SseEventTypeMessageDelta, SseEventTypeMessageComplete,
      SseEventTypeToolCallStart, SseEventTypeToolCallComplete]"

text \<open>Go errors.  \<^verbatim>\<open>fmt.Errorf\<close> with \<^verbatim>\<open>%w\<close> keeps the wrapped error; without it
  the result is a plain text error.  \<^verbatim>\<open>io.EOF\<close>, \<^verbatim>\<open>context.Canceled\<close> and
  \<^verbatim>\<open>context.DeadlineExceeded\<close> are the sentinel values the code compares against or
  receives from the context.\<close>

datatype error =
    ErrorString string
  | WrapError string error
  | EOF
  | Canceled
  | DeadlineExceeded

fun error_Error :: "error \<Rightarrow> string" where
  "error_Error (ErrorString s) = s"
| "error_Error (WrapError s _) = s"
| "error_Error EOF = ''EOF''"
| "error_Error Canceled = ''context canceled''"
| "error_Error DeadlineExceeded = ''context deadline exceeded''"

fun errors_Is :: "error \<Rightarrow> error \<Rightarrow> bool" where
  "errors_Is (WrapError s e) t = (WrapError s e = t \<or> errors_Is e t)"
| "errors_Is e t = (e = t)"

text \<open>\<^verbatim>\<open>fmt.Errorf(msg + "%w", err)\<close>.\<close>

definition Errorf_w :: "string \<Rightarrow> error \<Rightarrow> error" where
  "Errorf_w msg e = WrapError (msg @ error_Error e) e"

record ErrorLocation =
  Namespace :: string
  WorkflowName :: string
  ProcessorName :: string
  ProcessorType :: string
  ProcessorConfigName :: string
  ProcessId :: string

record ErrorDetail =
  Message :: string
  Code :: string
  Inner :: string
  Location :: ErrorLocation

text \<open>The method \<^verbatim>\<open>func (e *ErrorDetail) Error() string\<close>.\<close>

definition ErrorDetail_Error :: "ErrorDetail \<Rightarrow> string" where
  "ErrorDetail_Error e =
     (let body = Code e @ '': '' @ Message e @ '' (at namespace='' @ Namespace (Location e)
                 @ '', workflowName='' @ WorkflowName (Location e)
                 @ '', processorName='' @ ProcessorName (Location e)
                 @ '', processorType='' @ ProcessorType (Location e) @ '')''
      in if Inner e = [] then body else body @ '' - caused by: '' @ Inner e)"

text \<open>
  \<^verbatim>\<open>fmt\<close>'s rendering of a struct value under the verb \<^verbatim>\<open>%s\<close>: the fields in
  declaration order, separated by one space, inside braces.  This is what
  \<^verbatim>\<open>fmt.Errorf("SSE stream error: %s", ev.Event.Fact.RunError.Error)\<close> prints: the
  argument is the field \<^verbatim>\<open>Error\<close> of type \<^verbatim>\<open>ErrorDetail\<close> (a value, not a pointer),
  and the method \<^verbatim>\<open>Error()\<close> has a pointer receiver, so the value does not implement
  the \<^verbatim>\<open>error\<close> interface and is printed field by field.
\<close>

definition fmt_s_ErrorLocation :: "ErrorLocation \<Rightarrow> string" where
  "fmt_s_ErrorLocation l =
     ''{'' @ Namespace l @ '' '' @ WorkflowName l @ '' '' @ ProcessorName l @ '' ''
       @ ProcessorType l @ '' '' @ ProcessorConfigName l @ '' '' @ ProcessId l @ ''}''"

definition fmt_s_ErrorDetail :: "ErrorDetail \<Rightarrow> string" where
  "fmt_s_ErrorDetail e =
     ''{'' @ Message e @ '' '' @ Code e @ '' '' @ Inner e @ '' ''
       @ fmt_s_ErrorLocation (Location e) @ ''}''"

text \<open>Opaque \<^verbatim>\<open>interface{}\<close> payloads and the declarative message template are kept
  as their raw JSON text.\<close>

datatype json_value = JsonRaw string

record BufferedMessage =
  MessageId :: string
  ReplyToCustomMessageId :: string
  Text :: string
  Payload :: "json_value option"
  IsDebug :: bool
  Idx :: "int option"
  Template :: "json_value option"

record ToolCall =
  ToolsetName :: string
  ToolName :: string
  Parameter :: "json_value option"

record GenericBotSseEventFactRunError =
  Error :: ErrorDetail

record GenericBotSseEventFactProcessStart =
  ps_ProcessId :: string
  Task :: "json_value option"

record GenericBotSseEventFactProcessComplete =
  pc_ProcessId :: string
  TaskResult :: "json_value option"

record GenericBotSseEventFactMessage =
  fm_Message :: BufferedMessage

record GenericBotSseEventFactToolCallStart =
  ts_ProcessId :: string
  ts_CallSeq :: int
  ts_ToolCall :: ToolCall

record GenericBotSseEventFactToolCallComplete =
  tc_ProcessId :: string
  tc_CallSeq :: int
  tc_ToolCall :: ToolCall
  ToolCallResult :: "json_value option"

text \<open>The fact struct: ten pointer fields, each of which may be nil.\<close>

record GenericBotSseEventFact =
  RunInit :: "unit option"
  RunDone :: "unit option"
  RunError :: "GenericBotSseEventFactRunError option"
  ProcessStart :: "GenericBotSseEventFactProcessStart option"
  ProcessComplete :: "GenericBotSseEventFactProcessComplete option"
  MessageStart :: "GenericBotSseEventFactMessage option"
  MessageDelta :: "GenericBotSseEventFactMessage option"
  MessageComplete :: "GenericBotSseEventFactMessage option"
  ToolCallStart :: "GenericBotSseEventFactToolCallStart option"
  ToolCallComplete :: "GenericBotSseEventFactToolCallComplete option"

record GenericBotSseEvent =
  EventType :: SseEventType
  RequestId :: string
  EventId :: string
  ev_Namespace :: string
  BotProviderName :: string
  CustomChannelId :: string
  Fact :: GenericBotSseEventFact

record GenericBotSseEventWrapper =
  Event :: "GenericBotSseEvent option"
  ConnectionError :: "error option"

section \<open>Transport configuration and outbound message\<close>

record http_Client =
  Timeout :: nat

record BotProviderConfig =
  HTTPClient :: "http_Client option"
  EdgeServerHost :: string
  cfg_Namespace :: string
  cfg_BotProviderName :: string
  BotProviderApiKey :: string

record GenericBotMessage =
  msg_CustomChannelId :: string
  CustomMessageId :: string
  msg_Text :: string
  Action :: string
  BlobIds :: "string list"
  msg_Payload :: "(string \<times> json_value) list"

section \<open>The streaming client (pkg/client/streamer.go)\<close>

text \<open>
  The struct \<^verbatim>\<open>botProviderStream\<close>.  The fields \<^verbatim>\<open>ctx\<close> and \<^verbatim>\<open>eventChan\<close> are
  references to objects shared with the caller and with the producer goroutine; their
  state is the record \<open>shared\<close> below, passed alongside the struct.  The fields
  \<^verbatim>\<open>sseClient\<close> and \<^verbatim>\<open>connection\<close> belong to the SSE library and are only used by
  \<^verbatim>\<open>connect\<close>.
\<close>

record botProviderStream =
  config :: BotProviderConfig
  message :: GenericBotMessage
  currentEvent :: "GenericBotSseEvent option"
  err :: "error option"
  closed :: bool

text \<open>
  \<open>eventChan\<close>: the items buffered in the channel, oldest first;
  \<open>eventChan_closed\<close>: whether \<^verbatim>\<open>close(s.eventChan)\<close> has run;
  \<open>ctx_Err\<close>: the value of \<^verbatim>\<open>s.ctx.Err()\<close>, which is nil exactly as long as
  \<^verbatim>\<open>s.ctx.Done()\<close> is not closed.
\<close>

record shared =
  eventChan :: "GenericBotSseEventWrapper list"
  eventChan_closed :: bool
  ctx_Err :: "error option"

text \<open>The capacity given to \<^verbatim>\<open>make(chan ..., 100)\<close>.\<close>

definition eventChan_cap :: nat where
  "eventChan_cap = 100"

text \<open>What a call does: it returns a value, panics, or blocks (does not return in
  the present state of the shared objects).\<close>

datatype 'a outcome = Returns 'a | Panics | Blocks

text \<open>The two cases of the \<^verbatim>\<open>select\<close> statement of \<^verbatim>\<open>Next\<close>.  When both can
  proceed Go chooses one of them at random; the choice is the argument \<open>pick\<close>.\<close>

datatype select_case = CaseRecv | CaseDone

definition recv_ready :: "shared \<Rightarrow> bool" where
  "recv_ready sh = (eventChan sh \<noteq> [] \<or> eventChan_closed sh)"

definition done_ready :: "shared \<Rightarrow> bool" where
  "done_ready sh = (ctx_Err sh \<noteq> None)"

text \<open>The body of \<^verbatim>\<open>case ev, ok := <-s.eventChan\<close>.  A nil \<^verbatim>\<open>ev.Event\<close> and a nil
  \<^verbatim>\<open>ev.Event.Fact.RunError\<close> are dereferenced without a check.\<close>

definition Next_recv ::
  "botProviderStream \<Rightarrow> shared \<Rightarrow> bool outcome \<times> botProviderStream \<times> shared" where
  "Next_recv s sh =
     (case eventChan sh of
        [] \<Rightarrow> (Returns False, s, sh)
      | ev # rest \<Rightarrow>
          (let sh' = sh\<lparr>eventChan := rest\<rparr> in
           case ConnectionError ev of
             Some e \<Rightarrow> (Returns False, s\<lparr>err := Some e\<rparr>, sh')
           | None \<Rightarrow>
               (case Event ev of
                  None \<Rightarrow> (Panics, s, sh')
                | Some e \<Rightarrow>
                    if EventType e = SseEventTypeRunError then
                      (case RunError (Fact e) of
                         None \<Rightarrow> (Panics, s, sh')
                       | Some re \<Rightarrow>
                           (Returns False,
                            s\<lparr>err := Some (ErrorString
                                 (''SSE stream error: '' @ fmt_s_ErrorDetail (Error re)))\<rparr>,
                            sh'))
                    else (Returns True, s\<lparr>currentEvent := Some e\<rparr>, sh'))))"

definition Next ::
  "select_case \<Rightarrow> botProviderStream \<Rightarrow> shared \<Rightarrow> bool outcome \<times> botProviderStream \<times> shared"
  where
  "Next pick s sh =
     (if closed s \<or> err s \<noteq> None then (Returns False, s, sh)
      else if \<not> recv_ready sh \<and> \<not> done_ready sh then (Blocks, s, sh)
      else if recv_ready sh \<and> (\<not> done_ready sh \<or> pick = CaseRecv) then Next_recv s sh
      else (Returns False, s\<lparr>err := ctx_Err sh\<rparr>, sh))"

definition Current :: "botProviderStream \<Rightarrow> GenericBotSseEvent option" where
  "Current s = currentEvent s"

definition Err :: "botProviderStream \<Rightarrow> error option" where
  "Err s = err s"

text \<open>\<^verbatim>\<open>Close\<close> returns the error (always nil) and the updated struct.\<close>

definition Close :: "botProviderStream \<Rightarrow> error option \<times> botProviderStream" where
  "Close s =
     (if closed s then (None, s)
      else (None, s\<lparr>closed := True, currentEvent := None\<rparr>))"

subsection \<open>The producer\<close>

text \<open>The callback given to \<^verbatim>\<open>SubscribeToAll\<close>: it decodes the frame's data and
  builds the channel item.  \<^verbatim>\<open>json.Unmarshal\<close> is the parameter \<open>unmarshal\<close>.\<close>

definition subscriber ::
  "(string \<Rightarrow> error + GenericBotSseEvent) \<Rightarrow> string \<Rightarrow> GenericBotSseEventWrapper" where
  "subscriber unmarshal data =
     (case unmarshal data of
        Inl e \<Rightarrow> \<lparr>Event = None,
                  ConnectionError = Some (Errorf_w ''failed to unmarshal event: '' e)\<rparr>
      | Inr edgeEvent \<Rightarrow> \<lparr>Event = Some edgeEvent, ConnectionError = None\<rparr>)"

text \<open>The channel operations of the goroutine started by \<^verbatim>\<open>connect\<close>, in program
  order: \<^verbatim>\<open>Connect()\<close> hands the frames to the callback one by one and returns
  \<open>cerr\<close>; unless that is \<^verbatim>\<open>io.EOF\<close> one more item is sent; the deferred
  \<^verbatim>\<open>close\<close> comes last.\<close>

datatype chan_op = Send GenericBotSseEventWrapper | CloseChan

definition connect_failed :: "error option \<Rightarrow> GenericBotSseEventWrapper" where
  "connect_failed cerr =
     \<lparr>Event = None,
      ConnectionError = Some (case cerr of
         None \<Rightarrow> ErrorString ''SSE connection failed: %!w(<nil>)''
       | Some e \<Rightarrow> Errorf_w ''SSE connection failed: '' e)\<rparr>"

definition is_EOF :: "error option \<Rightarrow> bool" where
  "is_EOF cerr = (case cerr of None \<Rightarrow> False | Some e \<Rightarrow> errors_Is e EOF)"

definition producer_ops ::
  "(string \<Rightarrow> error + GenericBotSseEvent) \<Rightarrow> string list \<Rightarrow> error option \<Rightarrow> chan_op list"
  where
  "producer_ops unmarshal frames cerr =
     map (\<lambda>d. Send (subscriber unmarshal d)) frames
     @ (if is_EOF cerr then [] else [Send (connect_failed cerr)])
     @ [CloseChan]"

subsection \<open>Construction\<close>

text \<open>What \<^verbatim>\<open>NewStreaming\<close> has done to the outside world when it returns.\<close>

datatype effect =
    RequestCreated string string
  | ConnectionSubscribed
  | ProducerStarted

definition sse_url :: "BotProviderConfig \<Rightarrow> string" where
  "sse_url c =
     EdgeServerHost c @ ''/ns/'' @ cfg_Namespace c @ ''/bot-provider/''
       @ cfg_BotProviderName c @ ''/message/sse''"

text \<open>\<^verbatim>\<open>connect\<close>; \<^verbatim>\<open>json.Marshal\<close> and \<^verbatim>\<open>http.NewRequestWithContext\<close> are the
  parameters \<open>marshal\<close> and \<open>newRequest\<close> (the latter returns its error, if any).\<close>

definition connect ::
  "(GenericBotMessage \<Rightarrow> error + string) \<Rightarrow> (string \<Rightarrow> string \<Rightarrow> error option)
     \<Rightarrow> botProviderStream \<Rightarrow> error option \<times> effect list" where
  "connect marshal newRequest s =
     (case marshal (message s) of
        Inl e \<Rightarrow> (Some (Errorf_w ''failed to marshal bot message: '' e), [])
      | Inr messageBytes \<Rightarrow>
          (case newRequest (sse_url (config s)) messageBytes of
             Some e \<Rightarrow> (Some (Errorf_w ''failed to create SSE request: '' e), [])
           | None \<Rightarrow>
               (None, [RequestCreated (sse_url (config s)) messageBytes,
                       ConnectionSubscribed, ProducerStarted])))"

definition NewStreaming ::
  "(GenericBotMessage \<Rightarrow> error + string) \<Rightarrow> (string \<Rightarrow> string \<Rightarrow> error option)
     \<Rightarrow> BotProviderConfig option \<Rightarrow> GenericBotMessage option
     \<Rightarrow> botProviderStream option \<times> error option \<times> effect list" where
  "NewStreaming marshal newRequest cfg msg =
     (case cfg of
        None \<Rightarrow> (None, Some (ErrorString ''config cannot be nil''), [])
      | Some c \<Rightarrow>
          (case msg of
             None \<Rightarrow> (None, Some (ErrorString ''message cannot be nil''), [])
           | Some m \<Rightarrow>
               (let stream = \<lparr>config = c, message = m, currentEvent = None,
                              err = None, closed = False\<rparr>
                in case connect marshal newRequest stream of
                     (Some e, effs) \<Rightarrow>
                       (None, Some (Errorf_w ''failed to establish SSE connection: '' e), effs)
                   | (None, effs) \<Rightarrow> (Some stream, None, effs))))"

section \<open>Producer and consumer running together\<close>

text \<open>
  The producer goroutine and the consumer run concurrently and meet only at the
  channel.  A run of the two is a schedule: a list of actions, each of which is one
  atomic step of one party.  A send on a full channel and a \<^verbatim>\<open>Next\<close> with nothing to
  select do not proceed: the step leaves the state as it is and the party tries again
  when it is scheduled next.
\<close>

record system =
  sys_stream :: botProviderStream
  sys_shared :: shared
  sys_producer :: "chan_op list"

datatype action = ProducerStep | CallNext select_case | CallClose | CancelCtx

text \<open>What the caller sees: the value returned by a call of \<^verbatim>\<open>Next\<close> together with
  \<^verbatim>\<open>Current()\<close> and \<^verbatim>\<open>Err()\<close> read right after it, a panic of \<^verbatim>\<open>Next\<close>, or the
  value returned by \<^verbatim>\<open>Close\<close>.\<close>

datatype observation =
    NextReturned bool "GenericBotSseEvent option" "error option"
  | NextPanicked
  | CloseReturned "error option"

fun producer_step :: "chan_op list \<Rightarrow> shared \<Rightarrow> chan_op list \<times> shared" where
  "producer_step [] sh = ([], sh)"
| "producer_step (Send x # ops) sh =
     (if length (eventChan sh) < eventChan_cap
      then (ops, sh\<lparr>eventChan := eventChan sh @ [x]\<rparr>)
      else (Send x # ops, sh))"
| "producer_step (CloseChan # ops) sh = (ops, sh\<lparr>eventChan_closed := True\<rparr>)"

text \<open>\<^verbatim>\<open>cancel()\<close> of the caller's context: the first cancellation fixes \<^verbatim>\<open>ctx.Err()\<close>.\<close>

definition cancel :: "shared \<Rightarrow> shared" where
  "cancel sh = (case ctx_Err sh of None \<Rightarrow> sh\<lparr>ctx_Err := Some Canceled\<rparr> | Some _ \<Rightarrow> sh)"

fun step :: "action \<Rightarrow> system \<Rightarrow> observation option \<times> system" where
  "step ProducerStep \<sigma> =
     (case producer_step (sys_producer \<sigma>) (sys_shared \<sigma>) of
        (ops, sh') \<Rightarrow> (None, \<sigma>\<lparr>sys_shared := sh', sys_producer := ops\<rparr>))"
| "step (CallNext pick) \<sigma> =
     (case Next pick (sys_stream \<sigma>) (sys_shared \<sigma>) of
        (Blocks, _, _) \<Rightarrow> (None, \<sigma>)
      | (Panics, s', sh') \<Rightarrow> (Some NextPanicked, \<sigma>\<lparr>sys_stream := s', sys_shared := sh'\<rparr>)
      | (Returns b, s', sh') \<Rightarrow>
          (Some (NextReturned b (Current s') (Err s')),
           \<sigma>\<lparr>sys_stream := s', sys_shared := sh'\<rparr>))"
| "step CallClose \<sigma> =
     (case Close (sys_stream \<sigma>) of
        (e, s') \<Rightarrow> (Some (CloseReturned e), \<sigma>\<lparr>sys_stream := s'\<rparr>))"
| "step CancelCtx \<sigma> = (None, \<sigma>\<lparr>sys_shared := cancel (sys_shared \<sigma>)\<rparr>)"

fun run :: "action list \<Rightarrow> system \<Rightarrow> observation list \<times> system" where
  "run [] \<sigma> = ([], \<sigma>)"
| "run (a # as) \<sigma> =
     (case step a \<sigma> of
        (ob, \<sigma>') \<Rightarrow>
          (case run as \<sigma>' of
             (obs, \<sigma>'') \<Rightarrow> ((case ob of None \<Rightarrow> obs | Some x \<Rightarrow> x # obs), \<sigma>'')))"

text \<open>The system right after \<^verbatim>\<open>NewStreaming\<close> has returned the handle \<open>s\<close>: an empty
  open channel, a live context, and a producer about to see \<open>frames\<close> and then the
  result \<open>cerr\<close> of \<^verbatim>\<open>Connect()\<close>.\<close>

definition start ::
  "(string \<Rightarrow> error + GenericBotSseEvent) \<Rightarrow> string list \<Rightarrow> error option
     \<Rightarrow> botProviderStream \<Rightarrow> system" where
  "start unmarshal frames cerr s =
     \<lparr>sys_stream = s,
      sys_shared = \<lparr>eventChan = [], eventChan_closed = False, ctx_Err = None\<rparr>,
      sys_producer = producer_ops unmarshal frames cerr\<rparr>"

text \<open>Schedules in which nobody cancels the context or closes the handle.\<close>

fun plain :: "action \<Rightarrow> bool" where
  "plain ProducerStep = True"
| "plain (CallNext _) = True"
| "plain CallClose = False"
| "plain CancelCtx = False"

text \<open>The schedule in which producer and consumer take turns, \<open>n\<close> times.\<close>

definition rounds :: "nat \<Rightarrow> select_case \<Rightarrow> action list" where
  "rounds n pick = concat (replicate n [ProducerStep, CallNext pick])"

text \<open>Auxiliary notions for the proofs: the items a list of channel operations will
  send; the items the consumer can still receive; and \<open>n\<close> calls of \<^verbatim>\<open>Next\<close> by a
  consumer that runs alone against a channel already holding all items and closed.\<close>

fun sends :: "chan_op list \<Rightarrow> GenericBotSseEventWrapper list" where
  "sends [] = []"
| "sends (Send x # ops) = x # sends ops"
| "sends (CloseChan # ops) = sends ops"

definition pending :: "system \<Rightarrow> GenericBotSseEventWrapper list" where
  "pending \<sigma> = eventChan (sys_shared \<sigma>) @ sends (sys_producer \<sigma>)"

definition filled :: "GenericBotSseEventWrapper list \<Rightarrow> shared" where
  "filled items = \<lparr>eventChan = items, eventChan_closed = True, ctx_Err = None\<rparr>"

fun consume ::
  "nat \<Rightarrow> botProviderStream \<Rightarrow> GenericBotSseEventWrapper list \<Rightarrow> observation list" where
  "consume 0 s items = []"
| "consume (Suc n) s items =
     (case Next CaseRecv s (filled items) of
        (Returns b, s', sh') \<Rightarrow> NextReturned b (Current s') (Err s') # consume n s' (eventChan sh')
      | (_, s', sh') \<Rightarrow> NextPanicked # consume n s' (eventChan sh'))"

fun closes_last :: "chan_op list \<Rightarrow> bool" where
  "closes_last [] = False"
| "closes_last (Send x # ops) = closes_last ops"
| "closes_last (CloseChan # ops) = (ops = [])"

definition producer_inv :: "system \<Rightarrow> bool" where
  "producer_inv \<sigma> =
     (ctx_Err (sys_shared \<sigma>) = None
      \<and> (if eventChan_closed (sys_shared \<sigma>) then sys_producer \<sigma> = []
         else closes_last (sys_producer \<sigma>)))"

definition event_item :: "GenericBotSseEvent \<Rightarrow> GenericBotSseEventWrapper" where
  "event_item e = \<lparr>Event = Some e, ConnectionError = None\<rparr>"

definition decode_failed :: "error \<Rightarrow> GenericBotSseEventWrapper" where
  "decode_failed e =
     \<lparr>Event = None, ConnectionError = Some (Errorf_w ''failed to unmarshal event: '' e)\<rparr>"

text \<open>The handle after the events \<open>evs\<close> have been delivered in turn.\<close>

definition delivered :: "botProviderStream \<Rightarrow> GenericBotSseEvent list \<Rightarrow> botProviderStream" where
  "delivered s evs = (if evs = [] then s else s\<lparr>currentEvent := Some (last evs)\<rparr>)"

text \<open>An observation that is what a stream at its end shows: \<^verbatim>\<open>Next\<close> returned
  false, or \<^verbatim>\<open>Close\<close> returned nil.\<close>

fun ended :: "observation \<Rightarrow> bool" where
  "ended (NextReturned b _ _) = (\<not> b)"
| "ended NextPanicked = False"
| "ended (CloseReturned e) = (e = None)"

definition last_event :: "GenericBotSseEvent list \<Rightarrow> GenericBotSseEvent option" where
  "last_event evs = (if evs = [] then None else Some (last evs))"

section \<open>The mutex of the iterator\<close>

text \<open>
  Every method of \<^verbatim>\<open>botProviderStream\<close> starts with \<^verbatim>\<open>s.mu.Lock()\<close> and
  \<^verbatim>\<open>defer s.mu.Unlock()\<close>.  To follow the mutex, a call in progress is a thread with
  a program point: about to lock, holding the mutex inside the body, or finished (the
  deferred unlock has run).  One thread calls \<^verbatim>\<open>Next\<close>, another calls \<^verbatim>\<open>Close\<close>.
\<close>

datatype 'r pc = AtLock | Holding | Finished 'r

record locked_system =
  mu :: bool
  next_pc :: "bool outcome pc"
  close_pc :: "error option pc"
  the_stream :: botProviderStream
  the_shared :: shared

datatype thread = NextThread select_case | CloseThread

text \<open>One step of a thread; \<open>None\<close> when the thread cannot proceed in this state: the
  mutex is taken, the \<^verbatim>\<open>select\<close> has nothing to choose, or the call is over.  The body
  of \<^verbatim>\<open>Next\<close>, with its \<^verbatim>\<open>select\<close>, runs between \<^verbatim>\<open>Lock\<close> and the deferred
  \<^verbatim>\<open>Unlock\<close>, which also runs when the body panics.\<close>

fun thread_step :: "thread \<Rightarrow> locked_system \<Rightarrow> locked_system option" where
  "thread_step (NextThread pick) \<sigma> =
     (case next_pc \<sigma> of
        AtLock \<Rightarrow> if mu \<sigma> then None else Some (\<sigma>\<lparr>mu := True, next_pc := Holding\<rparr>)
      | Holding \<Rightarrow>
          (case Next pick (the_stream \<sigma>) (the_shared \<sigma>) of
             (Blocks, _, _) \<Rightarrow> None
           | (r, s', sh') \<Rightarrow>
               Some (\<sigma>\<lparr>mu := False, next_pc := Finished r, the_stream := s',
                       the_shared := sh'\<rparr>))
      | Finished _ \<Rightarrow> None)"
| "thread_step CloseThread \<sigma> =
     (case close_pc \<sigma> of
        AtLock \<Rightarrow> if mu \<sigma> then None else Some (\<sigma>\<lparr>mu := True, close_pc := Holding\<rparr>)
      | Holding \<Rightarrow>
          (case Close (the_stream \<sigma>) of
             (e, s') \<Rightarrow> Some (\<sigma>\<lparr>mu := False, close_pc := Finished e, the_stream := s'\<rparr>))
      | Finished _ \<Rightarrow> None)"

text \<open>The mutex is locked exactly while one of the two threads is inside its body,
  and at most one of them is.\<close>

definition lock_inv :: "locked_system \<Rightarrow> bool" where
  "lock_inv \<sigma> =
     (mu \<sigma> = (next_pc \<sigma> = Holding \<or> close_pc \<sigma> = Holding)
      \<and> (next_pc \<sigma> \<noteq> Holding \<or> close_pc \<sigma> \<noteq> Holding))"

text \<open>Both calls have just been made.\<close>

definition both_called :: "botProviderStream \<Rightarrow> shared \<Rightarrow> locked_system" where
  "both_called s sh =
     \<lparr>mu = False, next_pc = AtLock, close_pc = AtLock, the_stream = s, the_shared = sh\<rparr>"

section \<open>The synchronous calls (pkg/client/bot_provider.go)\<close>

text \<open>\<^verbatim>\<open>%d\<close> of an \<^verbatim>\<open>int\<close>.\<close>

fun nat_dec :: "nat \<Rightarrow> string" where
  "nat_dec n =
     (if n < 10 then [''0123456789'' ! n]
      else nat_dec (n div 10) @ [''0123456789'' ! (n mod 10)])"

declare nat_dec.simps [simp del]

definition itoa :: "int \<Rightarrow> string" where
  "itoa i = (if i < 0 then ''-'' @ nat_dec (nat (- i)) else nat_dec (nat i))"

record Blob =
  ChannelId :: string
  BlobId :: string
  FileType :: string
  FileName :: "string option"
  Size :: int
  Mime :: string

record GenericBotReply =
  reply_RequestId :: string
  reply_Namespace :: string
  reply_BotProviderName :: string
  reply_CustomChannelId :: string
  Messages :: "BufferedMessage list"
  reply_ErrorDetail :: "ErrorDetail option"

text \<open>The envelope \<^verbatim>\<open>apiResponse[T]\<close>.\<close>

record 'a apiResponse =
  IsSuccess :: bool
  Data :: 'a
  resp_Error :: "string option"
  ErrorCode :: "string option"

text \<open>An \<^verbatim>\<open>io.Reader\<close> is what reading it to the end gives: its bytes or an error.\<close>

type_synonym Reader = "error + string"

datatype part = FormField string string | FilePart string string Reader

datatype body = Bytes string | MultipartPipe "part list"

record http_Request =
  Method :: string
  URL :: string
  ContentType :: string
  ApiKey :: string
  ReqBody :: body

text \<open>A response: its status code and the result of \<^verbatim>\<open>io.ReadAll(resp.Body)\<close>.\<close>

record http_Response =
  StatusCode :: int
  Body :: "error + string"

text \<open>What the calls use from outside this repository: \<^verbatim>\<open>url.PathEscape\<close>, the error
  (if any) of \<^verbatim>\<open>http.NewRequestWithContext\<close> for a URL, \<^verbatim>\<open>HTTPClient.Do\<close>, and the
  boundary chosen by \<^verbatim>\<open>multipart.NewWriter\<close>.  The JSON encoders and decoders are
  separate parameters of each call.\<close>

record deps =
  PathEscape :: "string \<Rightarrow> string"
  NewRequest :: "string \<Rightarrow> error option"
  Do :: "http_Request \<Rightarrow> error + http_Response"
  Boundary :: string

record BotProviderClient =
  client_config :: BotProviderConfig

definition endpoint :: "deps \<Rightarrow> BotProviderConfig \<Rightarrow> string \<Rightarrow> string" where
  "endpoint dp c leaf =
     EdgeServerHost c @ ''/ns/'' @ PathEscape dp (cfg_Namespace c) @ ''/bot-provider/''
       @ PathEscape dp (cfg_BotProviderName c) @ ''/'' @ leaf"

definition responseError :: "string option \<Rightarrow> string option \<Rightarrow> string" where
  "responseError errMsg errCode =
     (if errMsg = None \<and> errCode = None then ''unknown error''
      else if errMsg \<noteq> None \<and> errCode \<noteq> None then the errMsg @ '' ('' @ the errCode @ '')''
      else if errMsg \<noteq> None then the errMsg
      else the errCode)"

definition SendMessage ::
  "deps \<Rightarrow> (GenericBotMessage \<Rightarrow> error + string)
     \<Rightarrow> (string \<Rightarrow> error + GenericBotReply apiResponse)
     \<Rightarrow> BotProviderClient \<Rightarrow> GenericBotMessage option \<Rightarrow> bool
     \<Rightarrow> GenericBotReply option \<times> error option" where
  "SendMessage dp marshal unmarshal c msg isDebug =
     (case msg of
        None \<Rightarrow> (None, Some (ErrorString ''message cannot be nil''))
      | Some m \<Rightarrow>
          (let u0 = endpoint dp (client_config c) ''message'';
               u = (if isDebug then u0 @ ''?is_debug=true'' else u0)
           in case marshal m of
                Inl e \<Rightarrow> (None, Some (Errorf_w ''failed to marshal message: '' e))
              | Inr body \<Rightarrow>
                  (case NewRequest dp u of
                     Some e \<Rightarrow> (None, Some (Errorf_w ''failed to create request: '' e))
                   | None \<Rightarrow>
                       (case Do dp \<lparr>Method = ''POST'', URL = u,
                                     ContentType = ''application/json'',
                                     ApiKey = BotProviderApiKey (client_config c),
                                     ReqBody = Bytes body\<rparr> of
                          Inl e \<Rightarrow> (None, Some (Errorf_w ''failed to send message: '' e))
                        | Inr resp \<Rightarrow>
                            (case Body resp of
                               Inl e \<Rightarrow>
                                 (None, Some (Errorf_w ''failed to read response body: '' e))
                             | Inr respBytes \<Rightarrow>
                                 (case unmarshal respBytes of
                                    Inl e \<Rightarrow>
                                      (None, Some (Errorf_w ''failed to decode response: '' e))
                                  | Inr payload \<Rightarrow>
                                      if StatusCode resp \<noteq> 200 \<or> \<not> IsSuccess payload
                                      then (None, Some (ErrorString
                                              (''send message failed ('' @ itoa (StatusCode resp)
                                               @ ''): ''
                                               @ responseError (resp_Error payload)
                                                   (ErrorCode payload))))
                                      else (Some (Data payload), None)))))))"

text \<open>The part of \<^verbatim>\<open>TriggerJSON\<close> and \<^verbatim>\<open>TriggerForm\<close> after the envelope has been
  accepted: both end with the same lines.\<close>

definition decode_data ::
  "(string \<Rightarrow> error + json_value) \<Rightarrow> string \<Rightarrow> json_value option \<times> error option" where
  "decode_data unmarshal_any d =
     (if length d = 0 \<or> d = ''null'' then (None, None)
      else case unmarshal_any d of
             Inl e \<Rightarrow> (None, Some (Errorf_w ''failed to decode response data: '' e))
           | Inr result \<Rightarrow> (Some result, None))"

definition TriggerJSON ::
  "deps \<Rightarrow> ((string \<times> json_value) list \<Rightarrow> error + string)
     \<Rightarrow> (string \<Rightarrow> error + string apiResponse) \<Rightarrow> (string \<Rightarrow> error + json_value)
     \<Rightarrow> BotProviderClient \<Rightarrow> (string \<times> json_value) list
     \<Rightarrow> json_value option \<times> error option" where
  "TriggerJSON dp marshal unmarshal unmarshal_any c payload =
     (let u = endpoint dp (client_config c) ''json''
      in case marshal payload of
           Inl e \<Rightarrow> (None, Some (Errorf_w ''failed to marshal json payload: '' e))
         | Inr body \<Rightarrow>
             (case NewRequest dp u of
                Some e \<Rightarrow> (None, Some (Errorf_w ''failed to create request: '' e))
              | None \<Rightarrow>
                  (case Do dp \<lparr>Method = ''POST'', URL = u, ContentType = ''application/json'',
                                ApiKey = BotProviderApiKey (client_config c),
                                ReqBody = Bytes body\<rparr> of
                     Inl e \<Rightarrow> (None, Some (Errorf_w ''failed to trigger json api: '' e))
                   | Inr resp \<Rightarrow>
                       (case Body resp of
                          Inl e \<Rightarrow> (None, Some (Errorf_w ''failed to read response body: '' e))
                        | Inr respBytes \<Rightarrow>
                            (case unmarshal respBytes of
                               Inl e \<Rightarrow> (None, Some (Errorf_w ''failed to decode response: '' e))
                             | Inr wrapper \<Rightarrow>
                                 if StatusCode resp \<noteq> 200 \<or> \<not> IsSuccess wrapper
                                 then (None, Some (ErrorString
                                         (''trigger json failed ('' @ itoa (StatusCode resp)
                                          @ ''): ''
                                          @ responseError (resp_Error wrapper)
                                              (ErrorCode wrapper))))
                                 else decode_data unmarshal_any (Data wrapper))))))"

text \<open>The content type of the file part: \<^verbatim>\<open>*mime\<close> when given and not empty.\<close>

definition file_content_type :: "string option \<Rightarrow> string" where
  "file_content_type mime =
     (if mime \<noteq> None \<and> the mime \<noteq> [] then the mime else ''application/octet-stream'')"

definition TriggerForm ::
  "deps \<Rightarrow> ((string \<times> json_value) list \<Rightarrow> error + string)
     \<Rightarrow> (string \<Rightarrow> error + string apiResponse) \<Rightarrow> (string \<Rightarrow> error + json_value)
     \<Rightarrow> BotProviderClient \<Rightarrow> (string \<times> json_value) list \<Rightarrow> Reader option \<Rightarrow> string
     \<Rightarrow> string option \<Rightarrow> json_value option \<times> error option" where
  "TriggerForm dp marshal unmarshal unmarshal_any c payload reader filename mime =
     (let u = endpoint dp (client_config c) ''form''
      in case marshal payload of
           Inl e \<Rightarrow> (None, Some (Errorf_w ''failed to marshal form json payload: '' e))
         | Inr jsonPayload \<Rightarrow>
             (case NewRequest dp u of
                Some e \<Rightarrow> (None, Some (Errorf_w ''failed to create request: '' e))
              | None \<Rightarrow>
                  (case Do dp \<lparr>Method = ''POST'', URL = u,
                                ContentType = ''multipart/form-data; boundary='' @ Boundary dp,
                                ApiKey = BotProviderApiKey (client_config c),
                                ReqBody = MultipartPipe
                                  (FormField ''json'' jsonPayload
                                   # (case reader of
                                        None \<Rightarrow> []
                                      | Some r \<Rightarrow>
                                          [FilePart filename (file_content_type mime) r]))\<rparr> of
                     Inl e \<Rightarrow> (None, Some (Errorf_w ''failed to trigger form api: '' e))
                   | Inr resp \<Rightarrow>
                       (case Body resp of
                          Inl e \<Rightarrow> (None, Some (Errorf_w ''failed to read response body: '' e))
                        | Inr respBytes \<Rightarrow>
                            (case unmarshal respBytes of
                               Inl e \<Rightarrow> (None, Some (Errorf_w ''failed to decode response: '' e))
                             | Inr wrapper \<Rightarrow>
                                 if StatusCode resp \<noteq> 200 \<or> \<not> IsSuccess wrapper
                                 then (None, Some (ErrorString
                                         (''trigger form failed ('' @ itoa (StatusCode resp)
                                          @ ''): ''
                                          @ responseError (resp_Error wrapper)
                                              (ErrorCode wrapper))))
                                 else decode_data unmarshal_any (Data wrapper))))))"

definition UploadBlob ::
  "deps \<Rightarrow> (string \<Rightarrow> error + Blob list apiResponse)
     \<Rightarrow> BotProviderClient \<Rightarrow> string \<Rightarrow> Reader \<Rightarrow> string \<Rightarrow> string option
     \<Rightarrow> Blob option \<times> error option" where
  "UploadBlob dp unmarshal c customChannelID reader filename mime =
     (let u = endpoint dp (client_config c) ''blob''
      in case NewRequest dp u of
           Some e \<Rightarrow> (None, Some (Errorf_w ''failed to create request: '' e))
         | None \<Rightarrow>
             (case Do dp \<lparr>Method = ''POST'', URL = u,
                           ContentType = ''multipart/form-data; boundary='' @ Boundary dp,
                           ApiKey = BotProviderApiKey (client_config c),
                           ReqBody = MultipartPipe
                             [FormField ''customChannelId'' customChannelID,
                              FilePart filename (file_content_type mime) reader]\<rparr> of
                Inl e \<Rightarrow> (None, Some (Errorf_w ''failed to upload blob: '' e))
              | Inr resp \<Rightarrow>
                  (case Body resp of
                     Inl e \<Rightarrow> (None, Some (Errorf_w ''failed to read response body: '' e))
                   | Inr respBytes \<Rightarrow>
                       (case unmarshal respBytes of
                          Inl e \<Rightarrow> (None, Some (Errorf_w ''failed to decode response: '' e))
                        | Inr payload \<Rightarrow>
                            if StatusCode resp \<noteq> 200 \<or> \<not> IsSuccess payload
                            then (None, Some (ErrorString
                                    (''upload blob failed ('' @ itoa (StatusCode resp) @ ''): ''
                                     @ responseError (resp_Error payload) (ErrorCode payload))))
                            else (case Data payload of
                                    [] \<Rightarrow> (None, Some (ErrorString
                                      ''upload blob succeeded but no blob metadata returned''))
                                  | b # _ \<Rightarrow> (Some b, None))))))"

text \<open>For stating what an error text carries: an absent remote field asks for
  nothing, a present one must occur in the text.\<close>

fun carries :: "string option \<Rightarrow> string \<Rightarrow> bool" where
  "carries None t = True"
| "carries (Some x) t = sublist x t"

text \<open>The exchange a call sees when the server answers \<open>status\<close> with a body that
  decodes to the envelope \<open>w\<close>: the request is created, sent and answered, and the body
  is read.\<close>

definition answering :: "int \<Rightarrow> string \<Rightarrow> deps" where
  "answering status bytes =
     \<lparr>PathEscape = (\<lambda>x. x), NewRequest = (\<lambda>u. None),
      Do = (\<lambda>r. Inr \<lparr>StatusCode = status, Body = Inr bytes\<rparr>), Boundary = ''b''\<rparr>"

section \<open>Fixtures for concrete runs\<close>

definition no_fact :: GenericBotSseEventFact where
  "no_fact =
     \<lparr>RunInit = None, RunDone = None, RunError = None, ProcessStart = None,
      ProcessComplete = None, MessageStart = None, MessageDelta = None,
      MessageComplete = None, ToolCallStart = None, ToolCallComplete = None\<rparr>"

definition event_of :: "SseEventType \<Rightarrow> string \<Rightarrow> GenericBotSseEventFact \<Rightarrow> GenericBotSseEvent"
  where
  "event_of ty eid f =
     \<lparr>EventType = ty, RequestId = ''r1'', EventId = eid, ev_Namespace = ''default'',
      BotProviderName = ''my-bot'', CustomChannelId = ''c1'', Fact = f\<rparr>"

definition detail_E42 :: ErrorDetail where
  "detail_E42 =
     \<lparr>Message = ''boom'', Code = ''E42'', Inner = [],
      Location = \<lparr>Namespace = ''default'', WorkflowName = ''wf'', ProcessorName = ''p'',
                  ProcessorType = ''t'', ProcessorConfigName = ''pc'', ProcessId = ''7''\<rparr>\<rparr>"

definition run_error_event :: GenericBotSseEvent where
  "run_error_event =
     event_of SseEventTypeRunError ''e1'' (no_fact\<lparr>RunError := Some \<lparr>Error = detail_E42\<rparr>\<rparr>)"

definition ev_start :: GenericBotSseEvent where
  "ev_start = event_of SseEventTypeMessageStart ''e1'' no_fact"

definition ev_done :: GenericBotSseEvent where
  "ev_done = event_of SseEventTypeRunDone ''e2'' no_fact"

text \<open>A decoder for the concrete runs: two frames that decode, anything else does not.\<close>

definition decode2 :: "string \<Rightarrow> error + GenericBotSseEvent" where
  "decode2 d =
     (if d = ''f1'' then Inr ev_start
      else if d = ''f2'' then Inr ev_done
      else Inl (ErrorString ''invalid character''))"

definition sched1 :: "action list" where
  "sched1 = [ProducerStep, CallNext CaseRecv, CallNext CaseDone, ProducerStep,
             ProducerStep, CallNext CaseRecv, CallNext CaseRecv]"

definition sched2 :: "action list" where
  "sched2 = [ProducerStep, ProducerStep, ProducerStep, ProducerStep,
             CallNext CaseRecv, CallNext CaseRecv, CallNext CaseRecv, CallNext CaseRecv]"

definition bare_run_error_event :: GenericBotSseEvent where
  "bare_run_error_event = event_of SseEventTypeRunError ''e9'' no_fact"

definition failed_envelope :: "'a \<Rightarrow> 'a apiResponse" where
  "failed_envelope d =
     \<lparr>IsSuccess = False, Data = d, resp_Error = Some ''bad payload'',
      ErrorCode = Some ''E400''\<rparr>"

definition no_reply :: GenericBotReply where
  "no_reply =
     \<lparr>reply_RequestId = [], reply_Namespace = [], reply_BotProviderName = [],
      reply_CustomChannelId = [], Messages = [], reply_ErrorDetail = None\<rparr>"

definition idle_shared :: shared where
  "idle_shared = \<lparr>eventChan = [], eventChan_closed = False, ctx_Err = None\<rparr>"

definition a_config :: BotProviderConfig where
  "a_config =
     \<lparr>HTTPClient = None, EdgeServerHost = ''http://localhost:8080'',
      cfg_Namespace = ''default'', cfg_BotProviderName = ''my-bot'',
      BotProviderApiKey = ''k''\<rparr>"

text \<open>A configuration that is present but empty, and what the HTTP transport answers
  to a request whose URL has no scheme.\<close>

definition empty_config :: BotProviderConfig where
  "empty_config =
     \<lparr>HTTPClient = None, EdgeServerHost = [], cfg_Namespace = [],
      cfg_BotProviderName = [], BotProviderApiKey = []\<rparr>"

definition no_scheme :: error where
  "no_scheme = ErrorString ''unsupported protocol scheme''"

text \<open>An event whose type is none of the declared constants.\<close>

definition bogus_event :: GenericBotSseEvent where
  "bogus_event = event_of ''bogus'' ''e7'' no_fact"

text \<open>What \<^verbatim>\<open>json.Unmarshal\<close> answers to an empty body.\<close>

definition empty_body :: error where
  "empty_body = ErrorString ''unexpected end of JSON input''"

definition a_message :: GenericBotMessage where
  "a_message =
     \<lparr>msg_CustomChannelId = ''c1'', CustomMessageId = ''m1'', msg_Text = ''hi'',
      Action = ''NONE'', BlobIds = [], msg_Payload = []\<rparr>"

definition a_client :: BotProviderClient where
  "a_client = \<lparr>client_config = a_config\<rparr>"

definition fresh_stream :: botProviderStream where
  "fresh_stream =
     \<lparr>config = a_config, message = a_message, currentEvent = None, err = None,
      closed = False\<rparr>"

section \<open>Unfolding the constants\<close>

lemmas SseEventType_defs =
  SseEventTypeRunInit_def SseEventTypeRunDone_def SseEventTypeRunError_def
  SseEventTypeProcessStart_def SseEventTypeProcessComplete_def
  SseEventTypeMessageStart_def SseEventTypeMessageDelta_def SseEventTypeMessageComplete_def
  SseEventTypeToolCallStart_def SseEventTypeToolCallComplete_def

section \<open>Facts about \<^verbatim>\<open>Next\<close>\<close>

lemma sublist_after: "sublist x y \<Longrightarrow> sublist x (p @ y)"
  unfolding sublist_def by (metis append.assoc)

lemma fmt_s_ErrorDetail_Code: "sublist (Code d) (fmt_s_ErrorDetail d)"
  unfolding fmt_s_ErrorDetail_def by (metis append.assoc sublist_appendI)

lemma fmt_s_ErrorDetail_Message: "sublist (Message d) (fmt_s_ErrorDetail d)"
  unfolding fmt_s_ErrorDetail_def by (metis sublist_appendI)

lemma Next_run_error:
  assumes "\<not> closed s" "err s = None" "eventChan sh = ev # rest"
          "ConnectionError ev = None" "Event ev = Some e"
          "EventType e = SseEventTypeRunError" "RunError (Fact e) = Some re"
          "\<not> done_ready sh \<or> pick = CaseRecv"
  shows "Next pick s sh =
           (Returns False,
            s\<lparr>err := Some (ErrorString (''SSE stream error: '' @ fmt_s_ErrorDetail (Error re)))\<rparr>,
            sh\<lparr>eventChan := rest\<rparr>)"
  using assms by (auto simp: Next_def Next_recv_def recv_ready_def Let_def)

lemma Next_terminal:
  "closed s \<or> err s \<noteq> None \<Longrightarrow> Next pick s sh = (Returns False, s, sh)"
  by (simp add: Next_def)

lemma Next_blocks:
  "\<not> closed s \<Longrightarrow> err s = None \<Longrightarrow> eventChan sh = [] \<Longrightarrow> \<not> eventChan_closed sh
     \<Longrightarrow> ctx_Err sh = None \<Longrightarrow> Next pick s sh = (Blocks, s, sh)"
  by (simp add: Next_def recv_ready_def done_ready_def)

lemma Next_live_recv:
  "\<not> closed s \<Longrightarrow> err s = None \<Longrightarrow> eventChan sh \<noteq> [] \<or> eventChan_closed sh
     \<Longrightarrow> ctx_Err sh = None \<Longrightarrow> Next pick s sh = Next_recv s sh"
  by (simp add: Next_def recv_ready_def done_ready_def)

lemma Next_recv_drained:
  "eventChan sh = [] \<Longrightarrow> Next_recv s sh = (Returns False, s, sh)"
  by (simp add: Next_recv_def)

lemma Next_recv_head:
  assumes "eventChan sh = x # b"
  shows "Next_recv s sh =
           (fst (Next_recv s (filled (x # c))), fst (snd (Next_recv s (filled (x # c)))),
            sh\<lparr>eventChan := b\<rparr>)"
  using assms
  by (simp add: Next_recv_def filled_def Let_def split: option.splits)

lemma Next_recv_filled_rest:
  "eventChan (snd (snd (Next_recv s (filled (x # c))))) = c"
  by (simp add: Next_recv_def filled_def Let_def split: option.splits)

lemma Next_recv_not_Blocks: "fst (Next_recv s sh) \<noteq> Blocks"
  by (simp add: Next_recv_def Let_def split: option.splits list.splits)

lemma producer_step_pending:
  "producer_step ops sh = (ops', sh') \<Longrightarrow> eventChan sh' @ sends ops' = eventChan sh @ sends ops"
  by (induction ops sh rule: producer_step.induct) (auto split: if_splits)

lemma producer_step_ctx:
  "producer_step ops sh = (ops', sh') \<Longrightarrow> ctx_Err sh' = ctx_Err sh"
  by (induction ops sh rule: producer_step.induct) (auto split: if_splits)

lemma producer_step_closes:
  "producer_step ops sh = (ops', sh') \<Longrightarrow>
   (if eventChan_closed sh then ops = [] else closes_last ops) \<Longrightarrow>
   (if eventChan_closed sh' then ops' = [] else closes_last ops')"
  by (induction ops sh rule: producer_step.induct) (auto split: if_splits)

lemma producer_step_inv:
  assumes "producer_inv \<sigma>" "producer_step (sys_producer \<sigma>) (sys_shared \<sigma>) = (ops', sh')"
  shows "producer_inv (\<sigma>\<lparr>sys_shared := sh', sys_producer := ops'\<rparr>)"
  using assms producer_step_closes [OF assms(2)] producer_step_ctx [OF assms(2)]
  by (simp add: producer_inv_def)

lemma step_producer:
  assumes "producer_inv \<sigma>" "step ProducerStep \<sigma> = (ob, \<sigma>')"
  shows "ob = None \<and> producer_inv \<sigma>' \<and> pending \<sigma>' = pending \<sigma> \<and> sys_stream \<sigma>' = sys_stream \<sigma>"
proof -
  obtain ops' sh' where ps: "producer_step (sys_producer \<sigma>) (sys_shared \<sigma>) = (ops', sh')"
    by (cases "producer_step (sys_producer \<sigma>) (sys_shared \<sigma>)")
  with assms(2) have s': "\<sigma>' = \<sigma>\<lparr>sys_shared := sh', sys_producer := ops'\<rparr>" and "ob = None"
    by auto
  moreover have "producer_inv \<sigma>'" unfolding s' by (rule producer_step_inv [OF assms(1) ps])
  moreover have "pending \<sigma>' = pending \<sigma>"
    unfolding s' pending_def using producer_step_pending [OF ps] by simp
  ultimately show ?thesis by simp
qed

lemma consume_Suc_terminal:
  "closed s \<or> err s \<noteq> None \<Longrightarrow>
   consume (Suc n) s items = NextReturned False (Current s) (Err s) # consume n s items"
  by (simp add: Next_terminal filled_def)

lemma step_next:
  assumes "producer_inv \<sigma>" "step (CallNext pick) \<sigma> = (ob, \<sigma>')"
  shows "producer_inv \<sigma>' \<and>
         (case ob of None \<Rightarrow> \<sigma>' = \<sigma>
          | Some x \<Rightarrow> consume (Suc n) (sys_stream \<sigma>) (pending \<sigma>)
                        = x # consume n (sys_stream \<sigma>') (pending \<sigma>'))"
proof -
  let ?s = "sys_stream \<sigma>" and ?sh = "sys_shared \<sigma>"
  have ctx: "ctx_Err ?sh = None" using assms(1) by (simp add: producer_inv_def)
  show ?thesis
  proof (cases "closed ?s \<or> err ?s \<noteq> None")
    case True
    then have "Next pick ?s ?sh = (Returns False, ?s, ?sh)" by (rule Next_terminal)
    with assms(2) have "ob = Some (NextReturned False (Current ?s) (Err ?s))" "\<sigma>' = \<sigma>"
      by auto
    with assms(1) consume_Suc_terminal [OF True] show ?thesis by simp
  next
    case False
    then have op: "\<not> closed ?s" "err ?s = None" by auto
    show ?thesis
    proof (cases "eventChan ?sh")
      case Nil
      show ?thesis
      proof (cases "eventChan_closed ?sh")
        case True
        then have p: "sys_producer \<sigma> = []" using assms(1) by (simp add: producer_inv_def)
        have "Next pick ?s ?sh = (Returns False, ?s, ?sh)"
          using Next_live_recv [OF op _ ctx] Next_recv_drained [OF Nil] True by simp
        with assms(2) have o: "ob = Some (NextReturned False (Current ?s) (Err ?s))" "\<sigma>' = \<sigma>"
          by auto
        have pe: "pending \<sigma> = []" by (simp add: pending_def p Nil)
        have "Next CaseRecv ?s (filled []) = (Returns False, ?s, filled [])"
          using op by (simp add: Next_def Next_recv_def filled_def recv_ready_def)
        then have "consume (Suc n) ?s [] = NextReturned False (Current ?s) (Err ?s) # consume n ?s []"
          by (simp add: filled_def)
        with o pe assms(1) show ?thesis by simp
      next
        case False
        from Next_blocks [OF op Nil False ctx] assms(2) have "ob = None" "\<sigma>' = \<sigma>" by auto
        with assms(1) show ?thesis by simp
      qed
    next
      case (Cons x b)
      let ?c = "b @ sends (sys_producer \<sigma>)"
      let ?R = "Next_recv ?s (filled (x # ?c))"
      have pe: "pending \<sigma> = x # ?c" by (simp add: pending_def Cons)
      have n1: "Next pick ?s ?sh = (fst ?R, fst (snd ?R), ?sh\<lparr>eventChan := b\<rparr>)"
        using Next_live_recv [OF op _ ctx] Next_recv_head [OF Cons] Cons by simp
      have n2: "Next CaseRecv ?s (filled (x # ?c)) = ?R"
        using op by (simp add: Next_def filled_def recv_ready_def done_ready_def)
      have rest: "eventChan (snd (snd ?R)) = ?c" by (rule Next_recv_filled_rest)
      have nb: "fst ?R \<noteq> Blocks" by (rule Next_recv_not_Blocks)
      obtain r s' sh' where R: "?R = (r, s', sh')" by (cases ?R)
      with rest nb have r: "r \<noteq> Blocks" "eventChan sh' = ?c" by auto
      from n1 R have n1': "Next pick ?s ?sh = (r, s', ?sh\<lparr>eventChan := b\<rparr>)" by simp
      have s': "\<sigma>' = \<sigma>\<lparr>sys_stream := s', sys_shared := ?sh\<lparr>eventChan := b\<rparr>\<rparr>"
        using assms(2) n1' r(1) by (cases r) auto
      have inv': "producer_inv \<sigma>'" using assms(1) unfolding s' by (simp add: producer_inv_def)
      have pe': "pending \<sigma>' = ?c" unfolding s' by (simp add: pending_def)
      have st': "sys_stream \<sigma>' = s'" unfolding s' by simp
      show ?thesis
      proof (cases r)
        case (Returns bb)
        with assms(2) n1' have "ob = Some (NextReturned bb (Current s') (Err s'))" by auto
        moreover have "consume (Suc n) ?s (x # ?c) = NextReturned bb (Current s') (Err s') # consume n s' ?c"
          using n2 R Returns r(2) by simp
        ultimately show ?thesis using inv' pe pe' st' by simp
      next
        case Panics
        with assms(2) n1' have "ob = Some NextPanicked" by auto
        moreover have "consume (Suc n) ?s (x # ?c) = NextPanicked # consume n s' ?c"
          using n2 R Panics r(2) by simp
        ultimately show ?thesis using inv' pe pe' st' by simp
      next
        case Blocks
        with r show ?thesis by simp
      qed
    qed
  qed
qed

lemma run_refines_consume:
  "producer_inv \<sigma> \<Longrightarrow> list_all plain sch \<Longrightarrow>
   \<exists>n\<le>length sch. fst (run sch \<sigma>) = consume n (sys_stream \<sigma>) (pending \<sigma>)"
proof (induction sch arbitrary: \<sigma>)
  case Nil
  then show ?case by simp
next
  case (Cons a sch)
  obtain ob \<sigma>' where st: "step a \<sigma> = (ob, \<sigma>')" by (cases "step a \<sigma>")
  from Cons.prems have pl: "plain a" "list_all plain sch" by simp_all
  show ?case
  proof (cases a)
    case ProducerStep
    with st step_producer [OF Cons.prems(1)] have f: "ob = None" "producer_inv \<sigma>'"
      "pending \<sigma>' = pending \<sigma>" "sys_stream \<sigma>' = sys_stream \<sigma>" by auto
    from Cons.IH [OF f(2) pl(2)] obtain n where
      "n \<le> length sch" "fst (run sch \<sigma>') = consume n (sys_stream \<sigma>') (pending \<sigma>')" by auto
    with st f show ?thesis by (auto simp: split_beta intro!: exI [of _ n])
  next
    case (CallNext pick)
    show ?thesis
    proof (cases ob)
      case None
      with st CallNext step_next [OF Cons.prems(1), of pick ob \<sigma>'] have e: "\<sigma>' = \<sigma>" by auto
      from Cons.IH [OF Cons.prems(1) pl(2)] obtain n where
        "n \<le> length sch" "fst (run sch \<sigma>) = consume n (sys_stream \<sigma>) (pending \<sigma>)" by auto
      with st None e show ?thesis by (auto simp: split_beta intro!: exI [of _ n])
    next
      case (Some x)
      from st CallNext step_next [OF Cons.prems(1), of pick ob \<sigma>'] have inv': "producer_inv \<sigma>'"
        by auto
      from Cons.IH [OF inv' pl(2)] obtain n where
        n: "n \<le> length sch" "fst (run sch \<sigma>') = consume n (sys_stream \<sigma>') (pending \<sigma>')" by auto
      from st CallNext Some step_next [OF Cons.prems(1), of pick ob \<sigma>' n]
      have "consume (Suc n) (sys_stream \<sigma>) (pending \<sigma>) = x # consume n (sys_stream \<sigma>') (pending \<sigma>')"
        by auto
      with st Some n show ?thesis
        by (auto simp: split_beta intro!: exI [of _ "Suc n"])
    qed
  next
    case CallClose
    with pl show ?thesis by simp
  next
    case CancelCtx
    with pl show ?thesis by simp
  qed
qed

lemma ErrorDetail_Error_Code: "sublist (Code d) (ErrorDetail_Error d)"
proof -
  have "\<exists>b. ErrorDetail_Error d = Code d @ b"
    unfolding ErrorDetail_Error_def Let_def by (cases "Inner d = []") simp_all
  then show ?thesis by (metis sublist_append_rightI)
qed

lemma ErrorDetail_Error_Message: "sublist (Message d) (ErrorDetail_Error d)"
proof -
  have "\<exists>b. ErrorDetail_Error d = (Code d @ '': '') @ Message d @ b"
    unfolding ErrorDetail_Error_def Let_def by (cases "Inner d = []") simp_all
  then show ?thesis by (metis sublist_appendI)
qed

lemma subscriber_Inr: "unmarshal d = Inr e \<Longrightarrow> subscriber unmarshal d = event_item e"
  by (simp add: subscriber_def event_item_def)

lemma subscriber_Inl: "unmarshal d = Inl e \<Longrightarrow> subscriber unmarshal d = decode_failed e"
  by (simp add: subscriber_def decode_failed_def)

lemma map_subscriber_events:
  "map unmarshal frames = map Inr evs \<Longrightarrow> map (subscriber unmarshal) frames = map event_item evs"
proof (induction frames arbitrary: evs)
  case Nil
  then show ?case by simp
next
  case (Cons d frames)
  then obtain e evs' where "evs = e # evs'" "unmarshal d = Inr e" "map unmarshal frames = map Inr evs'"
    by (cases evs) auto
  with Cons.IH [of evs'] show ?case by (simp add: subscriber_Inr)
qed

lemma sends_map_Send: "sends (map (\<lambda>d. Send (f d)) frames @ ops) = map f frames @ sends ops"
  by (induction frames) simp_all

lemma closes_last_map_Send: "closes_last (map (\<lambda>d. Send (f d)) frames @ ops) = closes_last ops"
  by (induction frames) simp_all

lemma producer_inv_start: "producer_inv (start unmarshal frames cerr s)"
  by (simp add: producer_inv_def start_def producer_ops_def closes_last_map_Send)

lemma pending_start:
  "pending (start unmarshal frames cerr s) =
     map (subscriber unmarshal) frames @ (if is_EOF cerr then [] else [connect_failed cerr])"
  by (simp add: pending_def start_def producer_ops_def sends_map_Send)

lemma Next_event_item:
  "\<not> closed s \<Longrightarrow> err s = None \<Longrightarrow> EventType e \<noteq> SseEventTypeRunError \<Longrightarrow>
   Next CaseRecv s (filled (event_item e # items)) =
     (Returns True, s\<lparr>currentEvent := Some e\<rparr>, filled items)"
  by (simp add: Next_def Next_recv_def filled_def recv_ready_def event_item_def)

lemma Next_connection_error:
  "\<not> closed s \<Longrightarrow> err s = None \<Longrightarrow> ConnectionError x = Some e \<Longrightarrow>
   Next CaseRecv s (filled (x # items)) = (Returns False, s\<lparr>err := Some e\<rparr>, filled items)"
  by (simp add: Next_def Next_recv_def filled_def recv_ready_def)

lemma Next_drained:
  "\<not> closed s \<Longrightarrow> err s = None \<Longrightarrow> Next CaseRecv s (filled []) = (Returns False, s, filled [])"
  by (simp add: Next_def Next_recv_def filled_def recv_ready_def)

lemma eventChan_filled: "eventChan (filled items) = items"
  by (simp add: filled_def)

lemma consume_terminal:
  "closed s \<or> err s \<noteq> None \<Longrightarrow>
   consume n s items = replicate n (NextReturned False (Current s) (Err s))"
  by (induction n) (simp_all add: Next_terminal eventChan_filled)

lemma consume_drained:
  "\<not> closed s \<Longrightarrow> err s = None \<Longrightarrow>
   consume n s [] = replicate n (NextReturned False (Current s) None)"
  by (induction n) (simp_all add: Next_drained eventChan_filled Err_def)

lemma consume_connection_error:
  assumes "\<not> closed s" "err s = None" "ConnectionError x = Some e"
  shows "consume n s (x # items) = replicate n (NextReturned False (Current s) (Some e))"
proof (cases n)
  case 0
  then show ?thesis by simp
next
  case (Suc m)
  have "consume m (s\<lparr>err := Some e\<rparr>) items
          = replicate m (NextReturned False (Current (s\<lparr>err := Some e\<rparr>)) (Err (s\<lparr>err := Some e\<rparr>)))"
    by (rule consume_terminal) simp
  with Suc Next_connection_error [OF assms] show ?thesis
    by (simp add: eventChan_filled Current_def Err_def)
qed

lemma consume_events:
  assumes "\<not> closed s" "err s = None" "\<forall>e\<in>set evs. EventType e \<noteq> SseEventTypeRunError"
  shows "consume n s (map event_item evs @ items) =
           map (\<lambda>e. NextReturned True (Some e) None) (take n evs)
           @ consume (n - length evs) (delivered s evs) items"
  using assms
proof (induction evs arbitrary: n s)
  case Nil
  then show ?case by (simp add: delivered_def)
next
  case (Cons e evs)
  show ?case
  proof (cases n)
    case 0
    then show ?thesis by simp
  next
    case (Suc m)
    let ?s = "s\<lparr>currentEvent := Some e\<rparr>"
    have ne: "EventType e \<noteq> SseEventTypeRunError" using Cons.prems by simp
    have step: "Next CaseRecv s (filled (event_item e # map event_item evs @ items)) =
                  (Returns True, ?s, filled (map event_item evs @ items))"
      by (rule Next_event_item [OF Cons.prems(1,2) ne])
    have ih: "consume m ?s (map event_item evs @ items) =
                map (\<lambda>e. NextReturned True (Some e) None) (take m evs)
                @ consume (m - length evs) (delivered ?s evs) items"
      using Cons.prems by (intro Cons.IH) simp_all
    have d: "delivered ?s evs = delivered s (e # evs)"
      by (simp add: delivered_def)
    show ?thesis
      using Suc step ih d Cons.prems(2)
      by (simp add: eventChan_filled Current_def Err_def)
  qed
qed

lemma delivered_facts:
  "closed (delivered s evs) = closed s" "err (delivered s evs) = err s"
  "currentEvent s = None \<Longrightarrow> Current (delivered s evs) = last_event evs"
  by (simp_all add: delivered_def last_event_def Current_def)

lemma run_plain_inv:
  "producer_inv \<sigma> \<Longrightarrow> list_all plain sch \<Longrightarrow> producer_inv (snd (run sch \<sigma>))"
proof (induction sch arbitrary: \<sigma>)
  case Nil
  then show ?case by simp
next
  case (Cons a sch)
  obtain ob \<sigma>' where st: "step a \<sigma> = (ob, \<sigma>')" by (cases "step a \<sigma>")
  have "producer_inv \<sigma>'"
  proof (cases a)
    case ProducerStep
    with st step_producer [OF Cons.prems(1)] show ?thesis by auto
  next
    case (CallNext pick)
    with st step_next [OF Cons.prems(1), of pick ob \<sigma>'] show ?thesis by auto
  next
    case CallClose
    with Cons.prems show ?thesis by simp
  next
    case CancelCtx
    with Cons.prems show ?thesis by simp
  qed
  with Cons.IH [of \<sigma>'] Cons.prems(2) st show ?case by (simp add: split_beta)
qed

lemma no_deadlock:
  assumes "producer_inv \<sigma>"
  shows "fst (step (CallNext pick) \<sigma>) \<noteq> None \<or> snd (step ProducerStep \<sigma>) \<noteq> \<sigma>"
proof -
  let ?s = "sys_stream \<sigma>" and ?sh = "sys_shared \<sigma>"
  have ctx: "ctx_Err ?sh = None" using assms by (simp add: producer_inv_def)
  consider (over) "closed ?s \<or> err ?s \<noteq> None"
    | (ready) "\<not> closed ?s" "err ?s = None" "eventChan ?sh \<noteq> [] \<or> eventChan_closed ?sh"
    | (wait) "\<not> closed ?s" "err ?s = None" "eventChan ?sh = []" "\<not> eventChan_closed ?sh"
    by blast
  then show ?thesis
  proof cases
    case over
    then show ?thesis by (simp add: Next_terminal)
  next
    case ready
    have "Next pick ?s ?sh = Next_recv ?s ?sh" by (rule Next_live_recv [OF ready ctx])
    moreover obtain r s' sh' where R: "Next_recv ?s ?sh = (r, s', sh')" by (cases "Next_recv ?s ?sh")
    moreover have "r \<noteq> Blocks" using Next_recv_not_Blocks [of ?s ?sh] R by simp
    ultimately show ?thesis by (cases r) simp_all
  next
    case wait
    then have cl: "closes_last (sys_producer \<sigma>)" using assms by (simp add: producer_inv_def)
    then obtain op ops where p: "sys_producer \<sigma> = op # ops" by (cases "sys_producer \<sigma>") auto
    have "sys_producer (snd (step ProducerStep \<sigma>)) = ops"
      using p wait(3) by (cases op) (simp_all add: eventChan_cap_def split_beta)
    then have "sys_producer (snd (step ProducerStep \<sigma>)) \<noteq> sys_producer \<sigma>" using p by simp
    then show ?thesis by auto
  qed
qed

lemma run_events_then:
  assumes inv: "producer_inv \<sigma>" and pl: "list_all plain sch"
      and pe: "pending \<sigma> = map event_item evs @ items"
      and s: "\<not> closed (sys_stream \<sigma>)" "err (sys_stream \<sigma>) = None"
      and ok: "\<forall>e\<in>set evs. EventType e \<noteq> SseEventTypeRunError"
      and tail: "\<And>m. consume m (delivered (sys_stream \<sigma>) evs) items = replicate m ob"
  shows "\<exists>k j. k \<le> length evs \<and> (0 < j \<longrightarrow> k = length evs) \<and>
           fst (run sch \<sigma>) =
             map (\<lambda>e. NextReturned True (Some e) None) (take k evs) @ replicate j ob"
proof -
  from run_refines_consume [OF inv pl] obtain n where
    n: "fst (run sch \<sigma>) = consume n (sys_stream \<sigma>) (pending \<sigma>)" by auto
  have c: "consume n (sys_stream \<sigma>) (map event_item evs @ items) =
          map (\<lambda>e. NextReturned True (Some e) None) (take n evs)
          @ consume (n - length evs) (delivered (sys_stream \<sigma>) evs) items"
    by (rule consume_events [OF s ok])
  have t: "take n evs = take (min n (length evs)) evs"
    by (cases "n \<le> length evs") (simp_all add: min_def)
  have r: "fst (run sch \<sigma>) =
          map (\<lambda>e. NextReturned True (Some e) None) (take (min n (length evs)) evs)
          @ replicate (n - length evs) ob"
    unfolding n pe c tail t [symmetric] by (rule refl)
  have a: "min n (length evs) \<le> length evs" by simp
  have b: "0 < n - length evs \<longrightarrow> min n (length evs) = length evs" by auto
  show ?thesis
    apply (rule exI [of _ "min n (length evs)"])
    apply (rule exI [of _ "n - length evs"])
    using a b r apply (intro conjI)
      apply assumption+
    done
qed

lemma delivered_open:
  "\<not> closed s \<Longrightarrow> err s = None \<Longrightarrow> \<not> closed (delivered s evs) \<and> err (delivered s evs) = None"
  by (simp add: delivered_facts)

lemma run_append:
  "run (as @ bs) \<sigma> =
     (fst (run as \<sigma>) @ fst (run bs (snd (run as \<sigma>))), snd (run bs (snd (run as \<sigma>))))"
  by (induction as arbitrary: \<sigma>) (simp_all add: split_beta split: option.splits)

lemma rounds_Suc: "rounds (Suc n) pick = ProducerStep # CallNext pick # rounds n pick"
  by (simp add: rounds_def)

lemma rounds_Suc_end: "rounds (Suc n) pick = rounds n pick @ [ProducerStep, CallNext pick]"
  by (induction n) (simp_all add: rounds_Suc, simp add: rounds_def)

lemma rounds_plain: "list_all plain (rounds n pick)"
  by (induction n) (simp_all add: rounds_Suc, simp add: rounds_def)

lemma map_Send_events:
  assumes "map (subscriber unmarshal) frames = map event_item evs"
  shows "map (\<lambda>d. Send (subscriber unmarshal d)) frames = map (\<lambda>e. Send (event_item e)) evs"
proof -
  have "map (\<lambda>d. Send (subscriber unmarshal d)) frames = map Send (map (subscriber unmarshal) frames)"
    by (simp add: o_def)
  also have "\<dots> = map Send (map event_item evs)" unfolding assms by (rule refl)
  also have "\<dots> = map (\<lambda>e. Send (event_item e)) evs" by (simp add: o_def)
  finally show ?thesis .
qed

lemma round_event:
  assumes "\<not> closed s" "err s = None" "EventType e \<noteq> SseEventTypeRunError"
  shows "run [ProducerStep, CallNext pick]
           \<lparr>sys_stream = s, sys_shared = idle_shared, sys_producer = Send (event_item e) # ops\<rparr>
         = ([NextReturned True (Some e) None],
            \<lparr>sys_stream = s\<lparr>currentEvent := Some e\<rparr>, sys_shared = idle_shared,
             sys_producer = ops\<rparr>)"
  using assms
  by (simp add: idle_shared_def eventChan_cap_def Next_def Next_recv_def recv_ready_def
        done_ready_def event_item_def Current_def Err_def)

lemma rounds_events:
  assumes "\<not> closed s" "err s = None" "\<forall>e\<in>set es. EventType e \<noteq> SseEventTypeRunError"
  shows "run (rounds (length es) pick)
           \<lparr>sys_stream = s, sys_shared = idle_shared,
            sys_producer = map (\<lambda>e. Send (event_item e)) es @ ops\<rparr>
         = (map (\<lambda>e. NextReturned True (Some e) None) es,
            \<lparr>sys_stream = delivered s es, sys_shared = idle_shared, sys_producer = ops\<rparr>)"
  using assms
proof (induction es arbitrary: s)
  case Nil
  then show ?case by (simp add: rounds_def delivered_def)
next
  case (Cons e es)
  let ?s = "s\<lparr>currentEvent := Some e\<rparr>"
  have r: "run [ProducerStep, CallNext pick]
             \<lparr>sys_stream = s, sys_shared = idle_shared,
              sys_producer = Send (event_item e) # map (\<lambda>e. Send (event_item e)) es @ ops\<rparr>
           = ([NextReturned True (Some e) None],
              \<lparr>sys_stream = ?s, sys_shared = idle_shared,
               sys_producer = map (\<lambda>e. Send (event_item e)) es @ ops\<rparr>)"
    using Cons.prems by (intro round_event) simp_all
  have ih: "run (rounds (length es) pick)
              \<lparr>sys_stream = ?s, sys_shared = idle_shared,
               sys_producer = map (\<lambda>e. Send (event_item e)) es @ ops\<rparr>
            = (map (\<lambda>e. NextReturned True (Some e) None) es,
               \<lparr>sys_stream = delivered ?s es, sys_shared = idle_shared, sys_producer = ops\<rparr>)"
    using Cons.prems by (intro Cons.IH) simp_all
  have d: "delivered ?s es = delivered s (e # es)" by (simp add: delivered_def)
  let ?\<sigma> = "\<lparr>sys_stream = s, sys_shared = idle_shared,
              sys_producer = Send (event_item e) # map (\<lambda>e. Send (event_item e)) es @ ops\<rparr>"
  have "run ([ProducerStep, CallNext pick] @ rounds (length es) pick) ?\<sigma>
          = (fst (run [ProducerStep, CallNext pick] ?\<sigma>)
               @ fst (run (rounds (length es) pick) (snd (run [ProducerStep, CallNext pick] ?\<sigma>))),
             snd (run (rounds (length es) pick) (snd (run [ProducerStep, CallNext pick] ?\<sigma>))))"
    by (rule run_append)
  also have "\<dots> = ([NextReturned True (Some e) None] @ map (\<lambda>e. NextReturned True (Some e) None) es,
                    \<lparr>sys_stream = delivered s (e # es), sys_shared = idle_shared,
                     sys_producer = ops\<rparr>)"
    unfolding r fst_conv snd_conv ih d by (rule refl)
  finally have "run ([ProducerStep, CallNext pick] @ rounds (length es) pick) ?\<sigma>
          = (map (\<lambda>e. NextReturned True (Some e) None) (e # es),
             \<lparr>sys_stream = delivered s (e # es), sys_shared = idle_shared, sys_producer = ops\<rparr>)"
    by simp
  moreover have "rounds (length (e # es)) pick = [ProducerStep, CallNext pick] @ rounds (length es) pick"
    by (simp add: rounds_Suc)
  moreover have "map (\<lambda>e. Send (event_item e)) (e # es) @ ops
                   = Send (event_item e) # map (\<lambda>e. Send (event_item e)) es @ ops"
    by simp
  ultimately show ?case by (simp only:)
qed

lemma round_close:
  assumes "\<not> closed s" "err s = None"
  shows "fst (run [ProducerStep, CallNext pick]
           \<lparr>sys_stream = s, sys_shared = idle_shared, sys_producer = [CloseChan]\<rparr>)
         = [NextReturned False (Current s) None]"
  using assms
  by (simp add: idle_shared_def Next_def Next_recv_def recv_ready_def done_ready_def
        Current_def Err_def)

lemma round_connection_error:
  assumes "\<not> closed s" "err s = None" "ConnectionError x = Some e"
  shows "fst (run [ProducerStep, CallNext pick]
           \<lparr>sys_stream = s, sys_shared = idle_shared, sys_producer = Send x # ops\<rparr>)
         = [NextReturned False (Current s) (Some e)]"
  using assms
  by (simp add: idle_shared_def eventChan_cap_def Next_def Next_recv_def recv_ready_def
        done_ready_def Current_def Err_def)

lemma rounds_to_the_end:
  assumes "map unmarshal frames = map Inr evs"
      and "\<forall>e\<in>set evs. EventType e \<noteq> SseEventTypeRunError"
      and "is_EOF cerr"
      and "\<not> closed s" and "err s = None" and "currentEvent s = None"
  shows "fst (run (rounds (Suc (length evs)) pick) (start unmarshal frames cerr s))
           = map (\<lambda>e. NextReturned True (Some e) None) evs
             @ [NextReturned False (last_event evs) None]"
proof -
  have m: "map (\<lambda>d. Send (subscriber unmarshal d)) frames = map (\<lambda>e. Send (event_item e)) evs"
    by (rule map_Send_events [OF map_subscriber_events [OF assms(1)]])
  have st: "start unmarshal frames cerr s
              = \<lparr>sys_stream = s, sys_shared = idle_shared,
                 sys_producer = map (\<lambda>e. Send (event_item e)) evs @ [CloseChan]\<rparr>"
    unfolding start_def producer_ops_def m idle_shared_def using assms(3) by simp
  have d: "\<not> closed (delivered s evs)" "err (delivered s evs) = None"
    using delivered_open [OF assms(4,5)] by simp_all
  show ?thesis
    unfolding rounds_Suc_end run_append st rounds_events [OF assms(4,5,2)] fst_conv snd_conv
      round_close [OF d] delivered_facts(3) [OF assms(6)]
    by (rule refl)
qed

lemma rounds_to_the_error:
  assumes "map unmarshal pre = map Inr evs"
      and "\<forall>e\<in>set evs. EventType e \<noteq> SseEventTypeRunError"
      and "unmarshal bad = Inl e"
      and "\<not> closed s" and "err s = None" and "currentEvent s = None"
  shows "fst (run (rounds (Suc (length evs)) pick) (start unmarshal (pre @ bad # post) cerr s))
           = map (\<lambda>e. NextReturned True (Some e) None) evs
             @ [NextReturned False (last_event evs)
                  (Some (Errorf_w ''failed to unmarshal event: '' e))]"
proof -
  let ?x = "Errorf_w ''failed to unmarshal event: '' e"
  have m: "map (\<lambda>d. Send (subscriber unmarshal d)) pre = map (\<lambda>e. Send (event_item e)) evs"
    by (rule map_Send_events [OF map_subscriber_events [OF assms(1)]])
  obtain ops where st: "start unmarshal (pre @ bad # post) cerr s
              = \<lparr>sys_stream = s, sys_shared = idle_shared,
                 sys_producer = map (\<lambda>e. Send (event_item e)) evs @ Send (decode_failed e) # ops\<rparr>"
    unfolding start_def producer_ops_def map_append list.map m idle_shared_def
      subscriber_Inl [of unmarshal bad e, OF assms(3)]
    by simp
  have ce: "ConnectionError (decode_failed e) = Some ?x" unfolding decode_failed_def by simp
  have d: "\<not> closed (delivered s evs)" "err (delivered s evs) = None"
    using delivered_open [OF assms(4,5)] by simp_all
  show ?thesis
    unfolding rounds_Suc_end run_append st rounds_events [OF assms(4,5,2)] fst_conv snd_conv
      round_connection_error [OF d ce] delivered_facts(3) [OF assms(6)]
    by (rule refl)
qed

section \<open>Delivery in wire order\<close>

text \<open>
  C1: the producer decodes the frames into the events \<open>evs\<close> (\<open>N = length evs\<close>), none
  of type \<^verbatim>\<open>run.error\<close>, and \<^verbatim>\<open>Connect()\<close> ends with \<^verbatim>\<open>io.EOF\<close>.  On a fresh handle,
  whatever the interleaving of producer steps and calls of \<^verbatim>\<open>Next\<close> (nobody
  cancelling the context or closing the handle), the calls of \<^verbatim>\<open>Next\<close> that have
  returned so far are: \<open>k \<le> N\<close> times true, with \<^verbatim>\<open>Current()\<close> yielding the first \<open>k\<close>
  events in the producer's order and \<^verbatim>\<open>Err()\<close> nil, and after that only false with
  \<^verbatim>\<open>Err()\<close> nil, which happens only once all \<open>N\<close> events have been delivered.
  Moreover the two parties are never both stuck: in every state reached, \<^verbatim>\<open>Next\<close>
  returns or the producer can take its next step.  And when the two take turns, the
  first \<open>N + 1\<close> calls of \<^verbatim>\<open>Next\<close> all return: \<open>N\<close> times true with the events in
  order, then false with \<^verbatim>\<open>Err()\<close> nil.
\<close>

theorem C1_events_in_wire_order:
  assumes "map unmarshal frames = map Inr evs"
      and "\<forall>e\<in>set evs. EventType e \<noteq> SseEventTypeRunError"
      and "is_EOF cerr"
      and "\<not> closed s" and "err s = None" and "currentEvent s = None"
      and "list_all plain sch"
  shows "(\<exists>k j. k \<le> length evs \<and> (0 < j \<longrightarrow> k = length evs) \<and>
            fst (run sch (start unmarshal frames cerr s)) =
              map (\<lambda>e. NextReturned True (Some e) None) (take k evs)
              @ replicate j (NextReturned False (last_event evs) None))
       \<and> (fst (step (CallNext CaseRecv) (snd (run sch (start unmarshal frames cerr s)))) \<noteq> None
          \<or> snd (step ProducerStep (snd (run sch (start unmarshal frames cerr s))))
              \<noteq> snd (run sch (start unmarshal frames cerr s)))
       \<and> fst (run (rounds (Suc (length evs)) pick) (start unmarshal frames cerr s))
           = map (\<lambda>e. NextReturned True (Some e) None) evs
             @ [NextReturned False (last_event evs) None]"
proof (intro conjI)
  let ?\<sigma> = "start unmarshal frames cerr s"
  have inv: "producer_inv ?\<sigma>" by (rule producer_inv_start)
  have pe: "pending ?\<sigma> = map event_item evs @ []"
    unfolding pending_start map_subscriber_events [OF assms(1)] using assms(3) by simp
  have st: "sys_stream ?\<sigma> = s" by (simp add: start_def)
  have d: "\<not> closed (delivered s evs)" "err (delivered s evs) = None"
    using delivered_open [OF assms(4,5)] by simp_all
  have tail: "consume m (delivered (sys_stream ?\<sigma>) evs) [] =
                replicate m (NextReturned False (last_event evs) None)" for m
    unfolding st consume_drained [OF d] delivered_facts(3) [OF assms(6)] by (rule refl)
  have s: "\<not> closed (sys_stream ?\<sigma>)" "err (sys_stream ?\<sigma>) = None"
    unfolding st by (rule assms(4), rule assms(5))
  show "\<exists>k j. k \<le> length evs \<and> (0 < j \<longrightarrow> k = length evs) \<and>
            fst (run sch ?\<sigma>) =
              map (\<lambda>e. NextReturned True (Some e) None) (take k evs)
              @ replicate j (NextReturned False (last_event evs) None)"
    by (rule run_events_then [OF inv assms(7) pe s assms(2) tail])
  show "fst (step (CallNext CaseRecv) (snd (run sch ?\<sigma>))) \<noteq> None
          \<or> snd (step ProducerStep (snd (run sch ?\<sigma>))) \<noteq> snd (run sch ?\<sigma>)"
    by (rule no_deadlock [OF run_plain_inv [OF inv assms(7)]])
  show "fst (run (rounds (Suc (length evs)) pick) ?\<sigma>)
           = map (\<lambda>e. NextReturned True (Some e) None) evs
             @ [NextReturned False (last_event evs) None]"
    by (rule rounds_to_the_end [OF assms(1,2,3,4,5,6)])
qed

text \<open>
  C3: the frames \<open>pre\<close> decode into the events \<open>evs\<close> (none of type \<^verbatim>\<open>run.error\<close>), the
  next frame \<open>bad\<close> does not decode, and any frames \<open>post\<close> follow.  On a fresh handle,
  whatever the interleaving, the calls of \<^verbatim>\<open>Next\<close> that have returned are: true for
  a prefix of \<open>evs\<close> in order, and after all of \<open>evs\<close> only false, with the decode error
  (wrapping the error of \<^verbatim>\<open>json.Unmarshal\<close>) in \<^verbatim>\<open>Err()\<close> and \<^verbatim>\<open>Current()\<close> still the
  last event before the bad frame; no item of a later frame is ever observed, although
  the producer does send one item for each frame of \<open>post\<close>.  When the two take turns,
  the first \<open>length evs + 1\<close> calls of \<^verbatim>\<open>Next\<close> all return: true for each event of
  \<open>evs\<close> in order, then false with the decode error.
\<close>

theorem C3_decode_error_ends_stream:
  assumes "map unmarshal pre = map Inr evs"
      and "\<forall>e\<in>set evs. EventType e \<noteq> SseEventTypeRunError"
      and "unmarshal bad = Inl e"
      and "\<not> closed s" and "err s = None" and "currentEvent s = None"
      and "list_all plain sch"
  shows "(\<exists>k j. k \<le> length evs \<and> (0 < j \<longrightarrow> k = length evs) \<and>
            fst (run sch (start unmarshal (pre @ bad # post) cerr s)) =
              map (\<lambda>e. NextReturned True (Some e) None) (take k evs)
              @ replicate j (NextReturned False (last_event evs)
                               (Some (Errorf_w ''failed to unmarshal event: '' e))))
       \<and> sends (producer_ops unmarshal (pre @ bad # post) cerr) =
           map event_item evs @ decode_failed e # map (subscriber unmarshal) post
           @ (if is_EOF cerr then [] else [connect_failed cerr])
       \<and> fst (run (rounds (Suc (length evs)) pick)
                 (start unmarshal (pre @ bad # post) cerr s))
           = map (\<lambda>e. NextReturned True (Some e) None) evs
             @ [NextReturned False (last_event evs)
                  (Some (Errorf_w ''failed to unmarshal event: '' e))]"
proof (intro conjI)
  let ?\<sigma> = "start unmarshal (pre @ bad # post) cerr s"
  let ?items = "decode_failed e # map (subscriber unmarshal) post
                  @ (if is_EOF cerr then [] else [connect_failed cerr])"
  let ?x = "Errorf_w ''failed to unmarshal event: '' e"
  have inv: "producer_inv ?\<sigma>" by (rule producer_inv_start)
  have m: "map (subscriber unmarshal) (pre @ bad # post) =
             map event_item evs @ decode_failed e # map (subscriber unmarshal) post"
    unfolding map_append list.map map_subscriber_events [OF assms(1)] subscriber_Inl [of unmarshal bad e, OF assms(3)]
    by (rule refl)
  have pe: "pending ?\<sigma> = map event_item evs @ ?items"
    unfolding pending_start m by simp
  have st: "sys_stream ?\<sigma> = s" by (simp add: start_def)
  have ce: "ConnectionError (decode_failed e) = Some ?x" unfolding decode_failed_def by simp
  have d: "\<not> closed (delivered s evs)" "err (delivered s evs) = None"
    using delivered_open [OF assms(4,5)] by simp_all
  have tail: "consume m (delivered (sys_stream ?\<sigma>) evs) ?items =
                replicate m (NextReturned False (last_event evs) (Some ?x))" for m
    unfolding st consume_connection_error [OF d ce] delivered_facts(3) [OF assms(6)]
    by (rule refl)
  have s: "\<not> closed (sys_stream ?\<sigma>)" "err (sys_stream ?\<sigma>) = None"
    unfolding st by (rule assms(4), rule assms(5))
  show "\<exists>k j. k \<le> length evs \<and> (0 < j \<longrightarrow> k = length evs) \<and>
            fst (run sch ?\<sigma>) =
              map (\<lambda>e. NextReturned True (Some e) None) (take k evs)
              @ replicate j (NextReturned False (last_event evs) (Some ?x))"
    by (rule run_events_then [OF inv assms(7) pe s assms(2) tail])
  have "sends (producer_ops unmarshal (pre @ bad # post) cerr) = pending ?\<sigma>"
    unfolding pending_def start_def by simp
  then show "sends (producer_ops unmarshal (pre @ bad # post) cerr) = map event_item evs @ ?items"
    unfolding pe .
  show "fst (run (rounds (Suc (length evs)) pick) ?\<sigma>)
           = map (\<lambda>e. NextReturned True (Some e) None) evs
             @ [NextReturned False (last_event evs) (Some ?x)]"
    by (rule rounds_to_the_error [OF assms(1,2,3,4,5,6)])
qed

lemma decode2_frames: "map decode2 [''f1'', ''f2''] = map Inr [ev_start, ev_done]"
  unfolding decode2_def by simp

lemma fixtures_not_run_error:
  "\<forall>e\<in>set [ev_start, ev_done]. EventType e \<noteq> SseEventTypeRunError"
  by (simp add: ev_start_def ev_done_def event_of_def SseEventType_defs)

lemma fresh_stream_open:
  "\<not> closed fresh_stream" "err fresh_stream = None" "currentEvent fresh_stream = None"
  by (simp_all add: fresh_stream_def)

lemma sched_plain: "list_all plain sched1" "list_all plain sched2"
  by (simp_all add: sched1_def sched2_def)

lemma is_EOF_EOF: "is_EOF (Some EOF)"
  by (simp add: is_EOF_def)

lemma decode2_garbage: "decode2 ''garbage'' = Inl (ErrorString ''invalid character'')"
  unfolding decode2_def by simp

theorem C1_events_in_wire_order_witness:
  "list_all plain sched1
   \<and> (\<exists>k j. k \<le> length [ev_start, ev_done] \<and> (0 < j \<longrightarrow> k = length [ev_start, ev_done]) \<and>
         fst (run sched1 (start decode2 [''f1'', ''f2''] (Some EOF) fresh_stream)) =
           map (\<lambda>e. NextReturned True (Some e) None) (take k [ev_start, ev_done])
           @ replicate j (NextReturned False (last_event [ev_start, ev_done]) None))"
  by (rule conjI [OF sched_plain(1)
        conjunct1 [OF C1_events_in_wire_order
          [OF decode2_frames fixtures_not_run_error is_EOF_EOF fresh_stream_open sched_plain(1)]]])

theorem C3_decode_error_ends_stream_witness:
  "decode2 ''garbage'' = Inl (ErrorString ''invalid character'')
   \<and> (\<exists>k j. k \<le> length [ev_start, ev_done] \<and> (0 < j \<longrightarrow> k = length [ev_start, ev_done]) \<and>
         fst (run sched2
                  (start decode2 ([''f1'', ''f2''] @ ''garbage'' # [''f1'']) (Some EOF) fresh_stream)) =
           map (\<lambda>e. NextReturned True (Some e) None) (take k [ev_start, ev_done])
           @ replicate j (NextReturned False (last_event [ev_start, ev_done])
               (Some (Errorf_w ''failed to unmarshal event: '' (ErrorString ''invalid character'')))))"
  by (rule conjI [OF decode2_garbage
        conjunct1 [OF C3_decode_error_ends_stream
          [OF decode2_frames fixtures_not_run_error decode2_garbage fresh_stream_open
              sched_plain(2), of "[''f1'']" "Some EOF"]]])

text \<open>The two concrete runs, evaluated.\<close>

lemma run_sched1:
  "fst (run sched1 (start decode2 [''f1'', ''f2''] (Some EOF) fresh_stream)) =
     [NextReturned True (Some ev_start) None, NextReturned True (Some ev_done) None,
      NextReturned False (Some ev_done) None]"
  by code_simp

lemma run_sched2:
  "fst (run sched2 (start decode2 [''f1'', ''f2'', ''garbage'', ''f1''] (Some EOF) fresh_stream)) =
     [NextReturned True (Some ev_start) None, NextReturned True (Some ev_done) None,
      NextReturned False (Some ev_done)
        (Some (WrapError ''failed to unmarshal event: invalid character''
                 (ErrorString ''invalid character''))),
      NextReturned False (Some ev_done)
        (Some (WrapError ''failed to unmarshal event: invalid character''
                 (ErrorString ''invalid character'')))]"
  by code_simp

section \<open>Run errors\<close>

text \<open>
  A frame that decodes to an event of type \<^verbatim>\<open>run.error\<close> carrying its RunError fact
  (and with it the ErrorDetail).  On a handle that is neither closed nor errored, when
  \<^verbatim>\<open>select\<close> takes the receive case, \<^verbatim>\<open>Next\<close> returns false, takes the item off the
  channel, leaves \<^verbatim>\<open>Current()\<close> as it was (the event is not delivered), and \<^verbatim>\<open>Err()\<close>
  is then a non-nil error whose text contains the ErrorDetail's code and its message.
\<close>

theorem run_error_with_fact_is_terminal:
  assumes "\<not> closed s" and "err s = None"
      and "eventChan sh = subscriber unmarshal d # rest"
      and "unmarshal d = Inr e"
      and "EventType e = SseEventTypeRunError"
      and "RunError (Fact e) = Some re"
      and "\<not> done_ready sh \<or> pick = CaseRecv"
  shows "case Next pick s sh of (r, s', sh') \<Rightarrow>
           r = Returns False \<and> Current s' = Current s \<and> eventChan sh' = rest
           \<and> (\<exists>x. Err s' = Some x
                 \<and> sublist (Code (Error re)) (error_Error x)
                 \<and> sublist (Message (Error re)) (error_Error x))"
proof -
  let ?x = "ErrorString (''SSE stream error: '' @ fmt_s_ErrorDetail (Error re))"
  have ev: "ConnectionError (subscriber unmarshal d) = None"
           "Event (subscriber unmarshal d) = Some e"
    unfolding subscriber_Inr [of unmarshal d e, OF assms(4)] event_item_def by simp_all
  have n: "Next pick s sh = (Returns False, s\<lparr>err := Some ?x\<rparr>, sh\<lparr>eventChan := rest\<rparr>)"
    by (rule Next_run_error [OF assms(1,2,3) ev assms(5,6,7)])
  have c: "sublist (Code (Error re)) (error_Error ?x)"
    unfolding error_Error.simps by (rule sublist_after [OF fmt_s_ErrorDetail_Code])
  have m: "sublist (Message (Error re)) (error_Error ?x)"
    unfolding error_Error.simps by (rule sublist_after [OF fmt_s_ErrorDetail_Message])
  show ?thesis
    unfolding n using c m by (simp add: Current_def Err_def)
qed

lemma run_error_event_facts:
  "EventType run_error_event = SseEventTypeRunError"
  "RunError (Fact run_error_event) = Some \<lparr>Error = detail_E42\<rparr>"
  "EventType bare_run_error_event = SseEventTypeRunError"
  "RunError (Fact bare_run_error_event) = None"
  by (simp_all add: run_error_event_def bare_run_error_event_def event_of_def no_fact_def)

theorem run_error_with_fact_example:
  "case Next CaseRecv fresh_stream
          \<lparr>eventChan = subscriber (\<lambda>d. Inr run_error_event) ''f'' # [],
           eventChan_closed = False, ctx_Err = None\<rparr> of
     (r, s', sh') \<Rightarrow>
       r = Returns False \<and> Current s' = Current fresh_stream \<and> eventChan sh' = []
       \<and> (\<exists>x. Err s' = Some x
             \<and> sublist (Code (Error \<lparr>Error = detail_E42\<rparr>)) (error_Error x)
             \<and> sublist (Message (Error \<lparr>Error = detail_E42\<rparr>)) (error_Error x))"
  by (rule run_error_with_fact_is_terminal
        [of fresh_stream _ "\<lambda>d. Inr run_error_event" "''f''" "[]" run_error_event _ CaseRecv,
         OF fresh_stream_open(1,2) _ refl run_error_event_facts(1,2)])
     simp_all

text \<open>The text of that error on the fixture: the struct rendering of \<^verbatim>\<open>%s\<close>.\<close>

lemma Next_run_error_text:
  "Next CaseRecv fresh_stream
     \<lparr>eventChan = [event_item run_error_event], eventChan_closed = False, ctx_Err = None\<rparr> =
   (Returns False,
    fresh_stream\<lparr>err := Some (ErrorString
       ''SSE stream error: {boom E42  {default wf p t pc 7}}'')\<rparr>,
    \<lparr>eventChan = [], eventChan_closed = False, ctx_Err = None\<rparr>)"
  by code_simp

text \<open>
  C2: every frame that decodes to an event of type \<^verbatim>\<open>run.error\<close> makes \<^verbatim>\<open>Next\<close> return
  false with a non-nil \<^verbatim>\<open>Err()\<close>.  The struct comment says that the fact field matching
  the event type is non-nil, but decoding does not ensure it, and \<^verbatim>\<open>Next\<close> reads
  \<^verbatim>\<open>ev.Event.Fact.RunError.Error\<close> without a check.  At the frame whose event has type
  \<^verbatim>\<open>run.error\<close> and no RunError fact, on a fresh handle, \<^verbatim>\<open>Next\<close> does not return
  false: it panics, and \<^verbatim>\<open>Err()\<close> stays nil.
\<close>

theorem C2_run_error_without_fact_panics:
  "EventType bare_run_error_event = SseEventTypeRunError
   \<and> Next CaseRecv fresh_stream
        \<lparr>eventChan = [subscriber (\<lambda>d. Inr bare_run_error_event) ''f''],
         eventChan_closed = False, ctx_Err = None\<rparr>
       = (Panics, fresh_stream, idle_shared)
   \<and> fst (run [ProducerStep, CallNext CaseRecv]
            (start (\<lambda>d. Inr bare_run_error_event) [''f''] (Some EOF) fresh_stream))
       = [NextPanicked]"
proof (intro conjI)
  show "EventType bare_run_error_event = SseEventTypeRunError"
    by (rule run_error_event_facts(3))
  show "Next CaseRecv fresh_stream
        \<lparr>eventChan = [subscriber (\<lambda>d. Inr bare_run_error_event) ''f''],
         eventChan_closed = False, ctx_Err = None\<rparr>
       = (Panics, fresh_stream, idle_shared)"
    by (simp add: Next_def Next_recv_def recv_ready_def done_ready_def subscriber_def
          run_error_event_facts fresh_stream_def idle_shared_def)
  show "fst (run [ProducerStep, CallNext CaseRecv]
            (start (\<lambda>d. Inr bare_run_error_event) [''f''] (Some EOF) fresh_stream))
       = [NextPanicked]"
    by code_simp
qed

theorem C2_run_error_without_fact_panics_witness:
  "fst (Next CaseRecv fresh_stream
        \<lparr>eventChan = [subscriber (\<lambda>d. Inr bare_run_error_event) ''f''],
         eventChan_closed = False, ctx_Err = None\<rparr>) \<noteq> Returns False"
  using C2_run_error_without_fact_panics by simp

text \<open>Every item the producer sends carries a connection error or an event.\<close>

lemma producer_items_carry:
  "x \<in> set (sends (producer_ops unmarshal frames cerr)) \<Longrightarrow>
   ConnectionError x \<noteq> None \<or> Event x \<noteq> None"
  unfolding producer_ops_def sends_map_Send
  by (auto simp: subscriber_def connect_failed_def split: sum.splits if_splits)

text \<open>
  C10: for a channel item that carries a connection error or an event (as every item
  of the producer does), received on a handle that is neither closed nor errored,
  \<^verbatim>\<open>Next\<close> panics exactly when the item carries an event of type \<^verbatim>\<open>run.error\<close> whose
  RunError fact pointer is nil: the branch reads \<^verbatim>\<open>ev.Event.Fact.RunError.Error\<close>
  without a check.  So it processes the item without panicking exactly under the
  precondition that a \<^verbatim>\<open>run.error\<close> event carries its RunError fact.
\<close>

theorem C10_nil_RunError_panics:
  assumes "\<not> closed s" and "err s = None"
      and "eventChan sh = ev # rest"
      and "ConnectionError ev \<noteq> None \<or> Event ev \<noteq> None"
      and "\<not> done_ready sh \<or> pick = CaseRecv"
  shows "(fst (Next pick s sh) = Panics)
           = (ConnectionError ev = None
              \<and> (\<exists>e. Event ev = Some e \<and> EventType e = SseEventTypeRunError
                       \<and> RunError (Fact e) = None))"
  using assms
  by (auto simp: Next_def Next_recv_def recv_ready_def Let_def split: option.splits)

theorem C10_nil_RunError_panics_witness:
  "fst (Next CaseRecv fresh_stream
          \<lparr>eventChan = event_item bare_run_error_event # [], eventChan_closed = False,
           ctx_Err = None\<rparr>) = Panics
   \<and> fst (Next CaseRecv fresh_stream
          \<lparr>eventChan = event_item run_error_event # [], eventChan_closed = False,
           ctx_Err = None\<rparr>) \<noteq> Panics"
proof -
  have a: "(fst (Next CaseRecv fresh_stream
          \<lparr>eventChan = event_item bare_run_error_event # [], eventChan_closed = False,
           ctx_Err = None\<rparr>) = Panics)
       = (ConnectionError (event_item bare_run_error_event) = None
          \<and> (\<exists>e. Event (event_item bare_run_error_event) = Some e
                \<and> EventType e = SseEventTypeRunError \<and> RunError (Fact e) = None))"
    by (rule C10_nil_RunError_panics
          [where ev = "event_item bare_run_error_event" and rest = "[]",
           OF fresh_stream_open(1,2)])
       (simp_all add: event_item_def)
  have b: "(fst (Next CaseRecv fresh_stream
          \<lparr>eventChan = event_item run_error_event # [], eventChan_closed = False,
           ctx_Err = None\<rparr>) = Panics)
       = (ConnectionError (event_item run_error_event) = None
          \<and> (\<exists>e. Event (event_item run_error_event) = Some e
                \<and> EventType e = SseEventTypeRunError \<and> RunError (Fact e) = None))"
    by (rule C10_nil_RunError_panics
          [where ev = "event_item run_error_event" and rest = "[]",
           OF fresh_stream_open(1,2)])
       (simp_all add: event_item_def)
  show ?thesis unfolding a b by (simp add: event_item_def run_error_event_facts)
qed

section \<open>Construction\<close>

text \<open>
  C4 (as stated): configuration-level problems are never surfaced later through the
  iterator.  A configuration that is present but empty passes the constructor: it
  returns a handle and a nil error, having built the request for the URL
  \<open>/ns//bot-provider//message/sse\<close> and started the producer.  The transport refuses
  the URL, \<^verbatim>\<open>Connect()\<close> returns that error, and the first \<^verbatim>\<open>Next\<close> returns false with
  it in \<^verbatim>\<open>Err()\<close>.
\<close>

theorem C4_empty_config_surfaces_in_iterator_counterexample:
  "NewStreaming (\<lambda>m. Inr ''{}'') (\<lambda>u b. None) (Some empty_config) (Some a_message)
     = (Some (fresh_stream\<lparr>config := empty_config\<rparr>), None,
        [RequestCreated ''/ns//bot-provider//message/sse'' ''{}'',
         ConnectionSubscribed, ProducerStarted])
   \<and> fst (run [ProducerStep, ProducerStep, CallNext CaseRecv]
            (start decode2 [] (Some no_scheme) (fresh_stream\<lparr>config := empty_config\<rparr>)))
       = [NextReturned False None
            (Some (WrapError ''SSE connection failed: unsupported protocol scheme''
                     no_scheme))]"
proof (intro conjI)
  show "NewStreaming (\<lambda>m. Inr ''{}'') (\<lambda>u b. None) (Some empty_config) (Some a_message)
     = (Some (fresh_stream\<lparr>config := empty_config\<rparr>), None,
        [RequestCreated ''/ns//bot-provider//message/sse'' ''{}'',
         ConnectionSubscribed, ProducerStarted])"
    by (simp add: NewStreaming_def connect_def fresh_stream_def sse_url_def empty_config_def)
  show "fst (run [ProducerStep, ProducerStep, CallNext CaseRecv]
            (start decode2 [] (Some no_scheme) (fresh_stream\<lparr>config := empty_config\<rparr>)))
       = [NextReturned False None
            (Some (WrapError ''SSE connection failed: unsupported protocol scheme''
                     no_scheme))]"
    by code_simp
qed

text \<open>
  C4 (amended): \<^verbatim>\<open>NewStreaming\<close> returns a handle exactly when it returns a nil error;
  when the configuration or the message is nil it returns no handle, a non-nil error,
  and has done nothing to the outside world (no request built, no connection
  subscribed, no producer started), so nothing of it can surface through an iterator.
  A configuration that is present is not examined: whenever the message marshals and
  the request can be created, the constructor returns the handle with a nil error.
\<close>

theorem C4_absent_config_or_message:
  "(fst (NewStreaming marshal newRequest cfg msg) = None)
     = (fst (snd (NewStreaming marshal newRequest cfg msg)) \<noteq> None)
   \<and> (cfg = None \<or> msg = None \<longrightarrow>
        fst (NewStreaming marshal newRequest cfg msg) = None
        \<and> fst (snd (NewStreaming marshal newRequest cfg msg)) \<noteq> None
        \<and> snd (snd (NewStreaming marshal newRequest cfg msg)) = [])
   \<and> (marshal m = Inr b \<and> newRequest (sse_url c) b = None \<longrightarrow>
        NewStreaming marshal newRequest (Some c) (Some m)
          = (Some \<lparr>config = c, message = m, currentEvent = None, err = None, closed = False\<rparr>,
             None, [RequestCreated (sse_url c) b, ConnectionSubscribed, ProducerStarted]))"
  by (auto simp: NewStreaming_def connect_def Let_def split: option.splits prod.splits sum.splits)

theorem C4_absent_config_or_message_witness:
  "fst (NewStreaming (\<lambda>m. Inr ''{}'') (\<lambda>u b. None) None (Some a_message)) = None
   \<and> fst (snd (NewStreaming (\<lambda>m. Inr ''{}'') (\<lambda>u b. None) None (Some a_message))) \<noteq> None
   \<and> snd (snd (NewStreaming (\<lambda>m. Inr ''{}'') (\<lambda>u b. None) None (Some a_message))) = []
   \<and> NewStreaming (\<lambda>m. Inr ''{}'') (\<lambda>u b. None) (Some empty_config) (Some a_message)
       = (Some \<lparr>config = empty_config, message = a_message, currentEvent = None, err = None,
                closed = False\<rparr>,
          None, [RequestCreated (sse_url empty_config) ''{}'', ConnectionSubscribed,
                 ProducerStarted])"
  using C4_absent_config_or_message
          [of "\<lambda>m. Inr ''{}''" "\<lambda>u b. None" None "Some a_message" a_message "''{}''" empty_config]
  by simp

lemma NewStreaming_nil_examples:
  "NewStreaming (\<lambda>m. Inr ''{}'') (\<lambda>u b. None) None (Some a_message)
     = (None, Some (ErrorString ''config cannot be nil''), [])"
  "NewStreaming (\<lambda>m. Inr ''{}'') (\<lambda>u b. None) (Some a_config) None
     = (None, Some (ErrorString ''message cannot be nil''), [])"
  "NewStreaming (\<lambda>m. Inr ''{}'') (\<lambda>u b. None) (Some a_config) (Some a_message)
     = (Some fresh_stream, None,
        [RequestCreated ''http://localhost:8080/ns/default/bot-provider/my-bot/message/sse'' ''{}'',
         ConnectionSubscribed, ProducerStarted])"
  by (simp_all add: NewStreaming_def connect_def fresh_stream_def sse_url_def a_config_def)

section \<open>Cancellation\<close>

text \<open>
  C5 (as stated): once the context is cancelled the next \<^verbatim>\<open>Next()\<close> returns false with
  a cancellation error.  In this run the producer has put one event in the channel, the
  context is then cancelled, and the next call of \<^verbatim>\<open>Next\<close>, with \<^verbatim>\<open>select\<close> choosing
  the receive case (both cases can proceed), returns true, delivers the event, and
  leaves \<^verbatim>\<open>Err()\<close> nil.
\<close>

theorem C5_cancelled_but_event_delivered_counterexample:
  "fst (run [ProducerStep, CancelCtx, CallNext CaseRecv]
          (start decode2 [''f1'', ''f2''] (Some EOF) fresh_stream))
     = [NextReturned True (Some ev_start) None]"
  by code_simp

text \<open>
  C5 (amended): on a handle that is neither closed nor errored, cancelling the live
  context makes \<^verbatim>\<open>ctx.Err()\<close> the cancellation error, and the next \<^verbatim>\<open>Next()\<close> returns
  false with that error in \<^verbatim>\<open>Err()\<close>, and stays false from then on, whenever the channel
  has nothing to receive (no buffered item and not closed; this is the case of a call
  that was blocked) or \<^verbatim>\<open>select\<close> chooses the cancellation case.  When the channel
  has something to receive and \<^verbatim>\<open>select\<close> chooses the receive case, \<^verbatim>\<open>Next\<close> handles
  the channel item as if the context were live.
\<close>

theorem C5_cancellation:
  assumes "\<not> closed s" and "err s = None" and "ctx_Err sh = None"
  shows "ctx_Err (cancel sh) = Some Canceled
       \<and> (\<not> recv_ready sh \<or> pick = CaseDone \<longrightarrow>
            Next pick s (cancel sh) = (Returns False, s\<lparr>err := Some Canceled\<rparr>, cancel sh)
            \<and> Next pick' (s\<lparr>err := Some Canceled\<rparr>) sh'
                = (Returns False, s\<lparr>err := Some Canceled\<rparr>, sh'))
       \<and> (recv_ready sh \<and> pick = CaseRecv \<longrightarrow>
            Next pick s (cancel sh) = Next_recv s (cancel sh))"
  using assms
  by (auto simp: Next_def cancel_def recv_ready_def done_ready_def)

theorem C5_cancellation_witness:
  "Next CaseRecv fresh_stream
      (cancel \<lparr>eventChan = [], eventChan_closed = False, ctx_Err = None\<rparr>)
     = (Returns False, fresh_stream\<lparr>err := Some Canceled\<rparr>,
        cancel \<lparr>eventChan = [], eventChan_closed = False, ctx_Err = None\<rparr>)
   \<and> Next CaseRecv fresh_stream
      (cancel \<lparr>eventChan = [event_item ev_start], eventChan_closed = False, ctx_Err = None\<rparr>)
     = Next_recv fresh_stream
      (cancel \<lparr>eventChan = [event_item ev_start], eventChan_closed = False, ctx_Err = None\<rparr>)"
  using C5_cancellation [OF fresh_stream_open(1,2),
          of "\<lparr>eventChan = [], eventChan_closed = False, ctx_Err = None\<rparr>" CaseRecv]
        C5_cancellation [OF fresh_stream_open(1,2),
          of "\<lparr>eventChan = [event_item ev_start], eventChan_closed = False, ctx_Err = None\<rparr>"
             CaseRecv]
  by (simp add: recv_ready_def)

section \<open>Close\<close>

lemma step_closed:
  assumes "closed (sys_stream \<sigma>)"
  shows "closed (sys_stream (snd (step a \<sigma>)))
         \<and> (case fst (step a \<sigma>) of None \<Rightarrow> True | Some ob \<Rightarrow> ended ob)"
proof (cases a)
  case ProducerStep
  with assms show ?thesis by (simp add: split_beta)
next
  case (CallNext pick)
  with assms show ?thesis by (simp add: Next_terminal)
next
  case CallClose
  with assms show ?thesis by (simp add: Close_def)
next
  case CancelCtx
  with assms show ?thesis by simp
qed

lemma run_closed:
  "closed (sys_stream \<sigma>) \<Longrightarrow> list_all ended (fst (run sch \<sigma>))"
proof (induction sch arbitrary: \<sigma>)
  case Nil
  then show ?case by simp
next
  case (Cons a sch)
  from step_closed [OF Cons.prems, of a] Cons.IH [of "snd (step a \<sigma>)"]
  show ?case by (simp add: split_beta split: option.splits)
qed

lemma Close_Close: "snd (Close (snd (Close s))) = snd (Close s)"
  by (simp add: Close_def)

lemma Close_many: "((\<lambda>t. snd (Close t)) ^^ Suc n) s = snd (Close s)"
  by (induction n) (simp_all add: Close_Close)

text \<open>
  C6: \<^verbatim>\<open>Close\<close> always returns nil; it changes nothing on a closed handle and otherwise
  only sets the closed flag and clears the current-event reference, so calling it again
  any number of times changes nothing more; \<^verbatim>\<open>Err()\<close> is untouched.  After it,
  \<^verbatim>\<open>Next\<close> returns false without touching the handle or the channel.  In a run, what
  the caller observed before the call of \<^verbatim>\<open>Close\<close> is the same as without it, and
  every observation after it, whatever the producer, the context and the caller do, is
  a \<^verbatim>\<open>Next\<close> that returned false or a \<^verbatim>\<open>Close\<close> that returned nil: no event, no panic.
\<close>

theorem C6_Close_idempotent:
  "fst (Close s) = None
   \<and> snd (Close s) = (if closed s then s else s\<lparr>closed := True, currentEvent := None\<rparr>)
   \<and> ((\<lambda>t. snd (Close t)) ^^ Suc n) s = snd (Close s)
   \<and> Err (snd (Close s)) = Err s
   \<and> Next pick (snd (Close s)) sh = (Returns False, snd (Close s), sh)
   \<and> fst (run (before @ CallClose # after) \<sigma>)
       = fst (run before \<sigma>) @ CloseReturned None
           # fst (run after (snd (step CallClose (snd (run before \<sigma>)))))
   \<and> list_all ended (fst (run after (snd (step CallClose (snd (run before \<sigma>))))))"
proof (intro conjI)
  show "fst (Close s) = None" by (simp add: Close_def)
  show "snd (Close s) = (if closed s then s else s\<lparr>closed := True, currentEvent := None\<rparr>)"
    by (simp add: Close_def)
  show "((\<lambda>t. snd (Close t)) ^^ Suc n) s = snd (Close s)" by (rule Close_many)
  show "Err (snd (Close s)) = Err s" by (simp add: Close_def Err_def)
  have c: "closed (snd (Close s))" by (simp add: Close_def)
  show "Next pick (snd (Close s)) sh = (Returns False, snd (Close s), sh)"
    using c by (simp add: Next_terminal)
  let ?\<sigma> = "snd (step CallClose (snd (run before \<sigma>)))"
  have f: "fst (step CallClose (snd (run before \<sigma>))) = Some (CloseReturned None)"
    by (simp add: split_beta Close_def)
  show "fst (run (before @ CallClose # after) \<sigma>)
       = fst (run before \<sigma>) @ CloseReturned None # fst (run after ?\<sigma>)"
    unfolding run_append using f by (simp add: split_beta del: step.simps)
  have "closed (sys_stream ?\<sigma>)" by (simp add: split_beta Close_def)
  then show "list_all ended (fst (run after ?\<sigma>))" by (rule run_closed)
qed

theorem C6_Close_idempotent_witness:
  "fst (Close (fresh_stream\<lparr>currentEvent := Some ev_start\<rparr>)) = None
   \<and> snd (Close (fresh_stream\<lparr>currentEvent := Some ev_start\<rparr>))
       = (if closed (fresh_stream\<lparr>currentEvent := Some ev_start\<rparr>)
          then fresh_stream\<lparr>currentEvent := Some ev_start\<rparr>
          else fresh_stream\<lparr>currentEvent := Some ev_start\<rparr>
                 \<lparr>closed := True, currentEvent := None\<rparr>)
   \<and> ((\<lambda>t. snd (Close t)) ^^ Suc 2) (fresh_stream\<lparr>currentEvent := Some ev_start\<rparr>)
       = snd (Close (fresh_stream\<lparr>currentEvent := Some ev_start\<rparr>))
   \<and> Err (snd (Close (fresh_stream\<lparr>currentEvent := Some ev_start\<rparr>)))
       = Err (fresh_stream\<lparr>currentEvent := Some ev_start\<rparr>)
   \<and> Next CaseRecv (snd (Close (fresh_stream\<lparr>currentEvent := Some ev_start\<rparr>)))
         \<lparr>eventChan = [event_item ev_done], eventChan_closed = False, ctx_Err = None\<rparr>
       = (Returns False, snd (Close (fresh_stream\<lparr>currentEvent := Some ev_start\<rparr>)),
          \<lparr>eventChan = [event_item ev_done], eventChan_closed = False, ctx_Err = None\<rparr>)
   \<and> fst (run ([ProducerStep, CallNext CaseRecv] @ CallClose
                  # [ProducerStep, CallNext CaseRecv, CallClose, CallNext CaseDone])
            (start decode2 [''f1'', ''f2''] (Some EOF) fresh_stream))
       = fst (run [ProducerStep, CallNext CaseRecv]
                (start decode2 [''f1'', ''f2''] (Some EOF) fresh_stream))
         @ CloseReturned None
           # fst (run [ProducerStep, CallNext CaseRecv, CallClose, CallNext CaseDone]
                (snd (step CallClose (snd (run [ProducerStep, CallNext CaseRecv]
                   (start decode2 [''f1'', ''f2''] (Some EOF) fresh_stream))))))
   \<and> list_all ended
         (fst (run [ProducerStep, CallNext CaseRecv, CallClose, CallNext CaseDone]
                (snd (step CallClose (snd (run [ProducerStep, CallNext CaseRecv]
                   (start decode2 [''f1'', ''f2''] (Some EOF) fresh_stream)))))))"
  by (rule C6_Close_idempotent)

lemma run_close_example:
  "fst (run [ProducerStep, CallNext CaseRecv, CallClose, ProducerStep, CallNext CaseRecv,
             CallClose, CallNext CaseDone]
          (start decode2 [''f1'', ''f2''] (Some EOF) fresh_stream))
     = [NextReturned True (Some ev_start) None, CloseReturned None,
        NextReturned False None None, CloseReturned None, NextReturned False None None]"
  by code_simp

section \<open>Errors of the synchronous calls\<close>

lemma carries_responseError:
  "carries m (p @ responseError m c)" "carries c (p @ responseError m c)"
proof -
  have a: "carries m (responseError m c)"
    by (cases m; cases c) (simp_all add: responseError_def)
  have b: "carries c (responseError m c)"
  proof (cases c)
    case None
    then show ?thesis by simp
  next
    case (Some y)
    show ?thesis
    proof (cases m)
      case None
      with Some show ?thesis by (simp add: responseError_def)
    next
      case (Some x)
      have "responseError (Some x) (Some y) = (x @ '' ('') @ y @ '')''"
        by (simp add: responseError_def)
      then show ?thesis using Some \<open>c = Some y\<close> by (metis carries.simps(2) sublist_appendI)
    qed
  qed
  show "carries m (p @ responseError m c)" using a by (cases m) (simp_all add: sublist_after)
  show "carries c (p @ responseError m c)" using b by (cases c) (simp_all add: sublist_after)
qed

lemma answering_facts:
  "NewRequest (answering st bytes) u = None"
  "Do (answering st bytes) r = Inr \<lparr>StatusCode = st, Body = Inr bytes\<rparr>"
  by (simp_all add: answering_def)

lemma failed_envelope_facts:
  "IsSuccess (failed_envelope d) = False"
  "resp_Error (failed_envelope d) = Some ''bad payload''"
  "ErrorCode (failed_envelope d) = Some ''E400''"
  by (simp_all add: failed_envelope_def)

lemma itoa_200: "itoa 200 = ''200''"
  by code_simp

text \<open>
  C7 (as stated): a response with a status other than 200 yields the one composed error
  carrying the remote message and code.  Every call decodes the body before it looks
  at the status.  Here the server answers 502 with an empty body, \<^verbatim>\<open>json.Unmarshal\<close>
  fails, and \<^verbatim>\<open>TriggerJSON\<close> returns the decode error, whose text has neither the
  status nor the words of the composed error.
\<close>

theorem C7_undecodable_body_counterexample:
  "TriggerJSON (answering 502 []) (\<lambda>p. Inr ''{}'') (\<lambda>b. Inl empty_body)
       (\<lambda>d. Inr (JsonRaw d)) a_client []
     = (None, Some (WrapError ''failed to decode response: unexpected end of JSON input''
                      empty_body))
   \<and> \<not> sublist ''502'' ''failed to decode response: unexpected end of JSON input''
   \<and> \<not> sublist ''trigger json failed''
          ''failed to decode response: unexpected end of JSON input''"
  by code_simp

text \<open>
  C7 (amended): the server answers with status \<open>StatusCode resp\<close> and a body.  If the
  body does not decode to an envelope, each of the four calls returns no data and the
  decode error, whatever the status.  If it decodes to an envelope \<open>w\<close> and the status is
  not 200 or \<open>isSuccess\<close> is false, each call returns no data and the one error
  \<open>"<call> failed (<status>): " @ responseError (error of w) (errorCode of w)\<close>; and such
  a text carries the remote message and the remote code whenever the envelope has them.
\<close>

theorem C7_envelope_errors:
  assumes "\<And>u. NewRequest dp u = None"
      and "\<And>r. Do dp r = Inr resp"
      and "Body resp = Inr bytes"
      and "marshalMsg msg = Inr b1" and "marshalPayload payload = Inr b2"
  shows "(\<forall>e. unmarshalReply bytes = Inl e \<longrightarrow>
            SendMessage dp marshalMsg unmarshalReply cl (Some msg) dbg
              = (None, Some (Errorf_w ''failed to decode response: '' e)))
       \<and> (\<forall>e. unmarshalRaw bytes = Inl e \<longrightarrow>
            TriggerJSON dp marshalPayload unmarshalRaw unmarshal_any cl payload
              = (None, Some (Errorf_w ''failed to decode response: '' e))
            \<and> TriggerForm dp marshalPayload unmarshalRaw unmarshal_any cl payload
                 reader filename mime
              = (None, Some (Errorf_w ''failed to decode response: '' e)))
       \<and> (\<forall>e. unmarshalBlobs bytes = Inl e \<longrightarrow>
            UploadBlob dp unmarshalBlobs cl channel file filename mime
              = (None, Some (Errorf_w ''failed to decode response: '' e)))
       \<and> (\<forall>w. unmarshalReply bytes = Inr w \<and> (StatusCode resp \<noteq> 200 \<or> \<not> IsSuccess w) \<longrightarrow>
            SendMessage dp marshalMsg unmarshalReply cl (Some msg) dbg
              = (None, Some (ErrorString (''send message failed ('' @ itoa (StatusCode resp)
                   @ ''): '' @ responseError (resp_Error w) (ErrorCode w)))))
       \<and> (\<forall>w. unmarshalRaw bytes = Inr w \<and> (StatusCode resp \<noteq> 200 \<or> \<not> IsSuccess w) \<longrightarrow>
            TriggerJSON dp marshalPayload unmarshalRaw unmarshal_any cl payload
              = (None, Some (ErrorString (''trigger json failed ('' @ itoa (StatusCode resp)
                   @ ''): '' @ responseError (resp_Error w) (ErrorCode w))))
            \<and> TriggerForm dp marshalPayload unmarshalRaw unmarshal_any cl payload
                 reader filename mime
              = (None, Some (ErrorString (''trigger form failed ('' @ itoa (StatusCode resp)
                   @ ''): '' @ responseError (resp_Error w) (ErrorCode w)))))
       \<and> (\<forall>w. unmarshalBlobs bytes = Inr w \<and> (StatusCode resp \<noteq> 200 \<or> \<not> IsSuccess w) \<longrightarrow>
            UploadBlob dp unmarshalBlobs cl channel file filename mime
              = (None, Some (ErrorString (''upload blob failed ('' @ itoa (StatusCode resp)
                   @ ''): '' @ responseError (resp_Error w) (ErrorCode w)))))
       \<and> carries m (p @ responseError m c) \<and> carries c (p @ responseError m c)"
proof (intro conjI allI impI)
  fix e assume "unmarshalReply bytes = Inl e"
  then show "SendMessage dp marshalMsg unmarshalReply cl (Some msg) dbg
              = (None, Some (Errorf_w ''failed to decode response: '' e))"
    unfolding SendMessage_def Let_def by (simp add: assms(1,2,3,4))
next
  fix e assume u: "unmarshalRaw bytes = Inl e"
  then show "TriggerJSON dp marshalPayload unmarshalRaw unmarshal_any cl payload
              = (None, Some (Errorf_w ''failed to decode response: '' e))"
    unfolding TriggerJSON_def Let_def by (simp add: assms(1,2,3,5))
  from u show "TriggerForm dp marshalPayload unmarshalRaw unmarshal_any cl payload
                 reader filename mime
              = (None, Some (Errorf_w ''failed to decode response: '' e))"
    unfolding TriggerForm_def Let_def by (simp add: assms(1,2,3,5))
next
  fix e assume "unmarshalBlobs bytes = Inl e"
  then show "UploadBlob dp unmarshalBlobs cl channel file filename mime
              = (None, Some (Errorf_w ''failed to decode response: '' e))"
    unfolding UploadBlob_def Let_def by (simp add: assms(1,2,3))
next
  fix w assume "unmarshalReply bytes = Inr w \<and> (StatusCode resp \<noteq> 200 \<or> \<not> IsSuccess w)"
  then show "SendMessage dp marshalMsg unmarshalReply cl (Some msg) dbg
              = (None, Some (ErrorString (''send message failed ('' @ itoa (StatusCode resp)
                   @ ''): '' @ responseError (resp_Error w) (ErrorCode w))))"
    unfolding SendMessage_def Let_def by (simp add: assms(1,2,3,4))
next
  fix w assume u: "unmarshalRaw bytes = Inr w \<and> (StatusCode resp \<noteq> 200 \<or> \<not> IsSuccess w)"
  then show "TriggerJSON dp marshalPayload unmarshalRaw unmarshal_any cl payload
              = (None, Some (ErrorString (''trigger json failed ('' @ itoa (StatusCode resp)
                   @ ''): '' @ responseError (resp_Error w) (ErrorCode w))))"
    unfolding TriggerJSON_def Let_def by (simp add: assms(1,2,3,5))
  from u show "TriggerForm dp marshalPayload unmarshalRaw unmarshal_any cl payload
                 reader filename mime
              = (None, Some (ErrorString (''trigger form failed ('' @ itoa (StatusCode resp)
                   @ ''): '' @ responseError (resp_Error w) (ErrorCode w))))"
    unfolding TriggerForm_def Let_def by (simp add: assms(1,2,3,5))
next
  fix w assume "unmarshalBlobs bytes = Inr w \<and> (StatusCode resp \<noteq> 200 \<or> \<not> IsSuccess w)"
  then show "UploadBlob dp unmarshalBlobs cl channel file filename mime
              = (None, Some (ErrorString (''upload blob failed ('' @ itoa (StatusCode resp)
                   @ ''): '' @ responseError (resp_Error w) (ErrorCode w))))"
    unfolding UploadBlob_def Let_def by (simp add: assms(1,2,3))
next
  show "carries m (p @ responseError m c)" by (rule carries_responseError)
  show "carries c (p @ responseError m c)" by (rule carries_responseError)
qed


theorem C7_envelope_errors_witness:
  "TriggerJSON (answering 200 ''{}'') (\<lambda>p. Inr ''{}'') (\<lambda>b. Inr (failed_envelope []))
       (\<lambda>d. Inr (JsonRaw d)) a_client [] =
     (None, Some (ErrorString ''trigger json failed (200): bad payload (E400)''))
   \<and> sublist ''bad payload'' ''trigger json failed (200): bad payload (E400)''
   \<and> sublist ''E400'' ''trigger json failed (200): bad payload (E400)''
   \<and> TriggerJSON (answering 502 []) (\<lambda>p. Inr ''{}'') (\<lambda>b. Inl empty_body)
       (\<lambda>d. Inr (JsonRaw d)) a_client [] =
     (None, Some (Errorf_w ''failed to decode response: '' empty_body))"
proof -
  have r: "responseError (Some ''bad payload'') (Some ''E400'') = ''bad payload (E400)''"
    by (simp add: responseError_def)
  have b1: "Body \<lparr>StatusCode = 200, Body = Inr ''{}''\<rparr> = Inr ''{}''" by simp
  have b2: "Body \<lparr>StatusCode = 502, Body = Inr []\<rparr> = Inr []" by simp
  note A = C7_envelope_errors
    [where dp = "answering 200 ''{}''" and resp = "\<lparr>StatusCode = 200, Body = Inr ''{}''\<rparr>"
       and bytes = "''{}''" and marshalMsg = "\<lambda>m. Inr ''{}''" and msg = a_message
       and ?b1.0 = "''{}''" and marshalPayload = "\<lambda>p. Inr ''{}''" and payload = "[]"
       and ?b2.0 = "''{}''" and unmarshalRaw = "\<lambda>b. Inr (failed_envelope [])"
       and unmarshal_any = "\<lambda>d. Inr (JsonRaw d)" and cl = a_client
       and m = "Some ''bad payload''" and c = "Some ''E400''"
       and p = "''trigger json failed (200): ''",
     OF answering_facts b1 refl refl]
  note B = C7_envelope_errors
    [where dp = "answering 502 []" and resp = "\<lparr>StatusCode = 502, Body = Inr []\<rparr>"
       and bytes = "[]" and marshalMsg = "\<lambda>m. Inr ''{}''" and msg = a_message
       and ?b1.0 = "''{}''" and marshalPayload = "\<lambda>p. Inr ''{}''" and payload = "[]"
       and ?b2.0 = "''{}''" and unmarshalRaw = "\<lambda>b. Inl empty_body"
       and unmarshal_any = "\<lambda>d. Inr (JsonRaw d)" and cl = a_client,
     OF answering_facts b2 refl refl]
  show ?thesis
    using A B by (simp add: failed_envelope_facts itoa_200 r)
qed

section \<open>The mutex and the blocking wait\<close>

text \<open>
  C9 (as stated): the mutex is never held across the blocking wait, so \<^verbatim>\<open>Close()\<close> can
  complete while a \<^verbatim>\<open>Next()\<close> is blocked.  Here \<^verbatim>\<open>Next\<close> and \<^verbatim>\<open>Close\<close> are both called
  on a fresh handle with an empty open channel and a live context.  \<^verbatim>\<open>Next\<close> takes the
  mutex and then cannot proceed (nothing to select) with the mutex still locked, and
  \<^verbatim>\<open>Close\<close> cannot proceed either: it waits in \<^verbatim>\<open>Lock\<close>.
\<close>

theorem C9_Close_waits_for_blocked_Next_counterexample:
  "thread_step (NextThread CaseRecv) (both_called fresh_stream idle_shared)
     = Some (both_called fresh_stream idle_shared\<lparr>mu := True, next_pc := Holding\<rparr>)
   \<and> mu (both_called fresh_stream idle_shared\<lparr>mu := True, next_pc := Holding\<rparr>)
   \<and> thread_step (NextThread CaseRecv)
         (both_called fresh_stream idle_shared\<lparr>mu := True, next_pc := Holding\<rparr>) = None
   \<and> thread_step CloseThread
         (both_called fresh_stream idle_shared\<lparr>mu := True, next_pc := Holding\<rparr>) = None"
  by (simp add: both_called_def fresh_stream_def idle_shared_def Next_def recv_ready_def
        done_ready_def)

lemma lock_inv_both_called: "lock_inv (both_called s sh)"
  by (simp add: lock_inv_def both_called_def)

lemma thread_step_inv:
  assumes "lock_inv \<sigma>" "thread_step t \<sigma> = Some \<sigma>'"
  shows "lock_inv \<sigma>'"
proof (cases t)
  case (NextThread pick)
  show ?thesis
  proof (cases "next_pc \<sigma>")
    case AtLock
    with assms NextThread show ?thesis
      by (auto simp: lock_inv_def split: if_splits)
  next
    case Holding
    obtain r s' sh' where n: "Next pick (the_stream \<sigma>) (the_shared \<sigma>) = (r, s', sh')"
      by (cases "Next pick (the_stream \<sigma>) (the_shared \<sigma>)")
    with assms NextThread Holding show ?thesis
      by (cases r) (auto simp: lock_inv_def)
  next
    case (Finished r)
    with assms NextThread show ?thesis by simp
  qed
next
  case CloseThread
  show ?thesis
  proof (cases "close_pc \<sigma>")
    case AtLock
    with assms CloseThread show ?thesis
      by (auto simp: lock_inv_def split: if_splits)
  next
    case Holding
    with assms CloseThread show ?thesis
      by (auto simp: lock_inv_def split_beta)
  next
    case (Finished r)
    with assms CloseThread show ?thesis by simp
  qed
qed

lemma Next_thread_returns:
  assumes "next_pc \<sigma> = Holding" "thread_step (NextThread pick) \<sigma> = Some \<sigma>'"
  shows "\<not> mu \<sigma>' \<and> close_pc \<sigma>' = close_pc \<sigma> \<and> (\<exists>r. next_pc \<sigma>' = Finished r)"
proof -
  obtain r s' sh' where n: "Next pick (the_stream \<sigma>) (the_shared \<sigma>) = (r, s', sh')"
    by (cases "Next pick (the_stream \<sigma>) (the_shared \<sigma>)")
  with assms show ?thesis by (cases r) auto
qed

text \<open>
  C9 (amended): the single mutex is held for the whole of each call, from \<^verbatim>\<open>Lock\<close> to
  the return.  In every state where it is locked exactly by the call that is inside its
  body (which every step preserves): while \<^verbatim>\<open>Next\<close> is inside its body, and in
  particular while it is blocked in its \<^verbatim>\<open>select\<close>, the mutex is locked and \<^verbatim>\<open>Close\<close>
  cannot proceed; while \<^verbatim>\<open>Close\<close> is inside its body \<^verbatim>\<open>Next\<close> cannot proceed; and when
  \<^verbatim>\<open>Next\<close> returns, the mutex is free and a waiting \<^verbatim>\<open>Close\<close> can go on.
\<close>

theorem C9_mutex_held_for_whole_call:
  assumes "lock_inv \<sigma>"
  shows "(\<forall>t \<sigma>'. thread_step t \<sigma> = Some \<sigma>' \<longrightarrow> lock_inv \<sigma>')
       \<and> (next_pc \<sigma> = Holding \<longrightarrow> mu \<sigma> \<and> thread_step CloseThread \<sigma> = None)
       \<and> (close_pc \<sigma> = Holding \<longrightarrow> mu \<sigma> \<and> thread_step (NextThread pick) \<sigma> = None)
       \<and> (next_pc \<sigma> = Holding \<and> fst (Next pick (the_stream \<sigma>) (the_shared \<sigma>)) = Blocks \<longrightarrow>
            mu \<sigma> \<and> thread_step (NextThread pick) \<sigma> = None)
       \<and> (\<forall>\<sigma>'. next_pc \<sigma> = Holding \<and> close_pc \<sigma> = AtLock
              \<and> thread_step (NextThread pick) \<sigma> = Some \<sigma>' \<longrightarrow>
            \<not> mu \<sigma>' \<and> thread_step CloseThread \<sigma>' \<noteq> None)"
proof (intro conjI allI impI)
  fix t \<sigma>' assume "thread_step t \<sigma> = Some \<sigma>'"
  then show "lock_inv \<sigma>'" by (rule thread_step_inv [OF assms])
next
  assume h: "next_pc \<sigma> = Holding"
  with assms show "mu \<sigma>" by (simp add: lock_inv_def)
  from h assms have "close_pc \<sigma> \<noteq> Holding" "mu \<sigma>" by (auto simp: lock_inv_def)
  then show "thread_step CloseThread \<sigma> = None" by (cases "close_pc \<sigma>") simp_all
next
  assume h: "close_pc \<sigma> = Holding"
  with assms show "mu \<sigma>" by (simp add: lock_inv_def)
  from h assms have "next_pc \<sigma> \<noteq> Holding" "mu \<sigma>" by (auto simp: lock_inv_def)
  then show "thread_step (NextThread pick) \<sigma> = None" by (cases "next_pc \<sigma>") simp_all
next
  assume h: "next_pc \<sigma> = Holding \<and> fst (Next pick (the_stream \<sigma>) (the_shared \<sigma>)) = Blocks"
  with assms show "mu \<sigma>" by (simp add: lock_inv_def)
  from h show "thread_step (NextThread pick) \<sigma> = None" by (auto simp: split_beta)
next
  fix \<sigma>'
  assume h: "next_pc \<sigma> = Holding \<and> close_pc \<sigma> = AtLock
              \<and> thread_step (NextThread pick) \<sigma> = Some \<sigma>'"
  from Next_thread_returns [of \<sigma> pick \<sigma>'] h
  have r: "\<not> mu \<sigma>'" "close_pc \<sigma>' = AtLock" by auto
  from r show "\<not> mu \<sigma>'" by simp
  from r show "thread_step CloseThread \<sigma>' \<noteq> None" by simp
qed

theorem C9_mutex_held_for_whole_call_witness:
  "lock_inv (both_called fresh_stream idle_shared\<lparr>mu := True, next_pc := Holding\<rparr>)
   \<and> mu (both_called fresh_stream idle_shared\<lparr>mu := True, next_pc := Holding\<rparr>)
   \<and> thread_step CloseThread
        (both_called fresh_stream idle_shared\<lparr>mu := True, next_pc := Holding\<rparr>) = None
   \<and> thread_step (NextThread CaseRecv)
        (both_called fresh_stream idle_shared\<lparr>mu := True, next_pc := Holding\<rparr>) = None"
proof -
  let ?\<sigma> = "both_called fresh_stream idle_shared\<lparr>mu := True, next_pc := Holding\<rparr>"
  have i: "lock_inv ?\<sigma>" by (simp add: lock_inv_def both_called_def)
  have h: "next_pc ?\<sigma> = Holding" by simp
  have b: "fst (Next CaseRecv (the_stream ?\<sigma>) (the_shared ?\<sigma>)) = Blocks"
    by (simp add: both_called_def fresh_stream_def idle_shared_def Next_def recv_ready_def
          done_ready_def)
  from C9_mutex_held_for_whole_call [OF i, of CaseRecv] h b i show ?thesis by blast
qed

text \<open>Once the context is cancelled the blocked \<^verbatim>\<open>Next\<close> returns and unlocks, and only
  then does \<^verbatim>\<open>Close\<close> get the mutex.\<close>

lemma Close_after_Next_returns:
  "thread_step (NextThread CaseDone)
     (both_called fresh_stream (cancel idle_shared)\<lparr>mu := True, next_pc := Holding\<rparr>)
   = Some (both_called (fresh_stream\<lparr>err := Some Canceled\<rparr>) (cancel idle_shared)
             \<lparr>next_pc := Finished (Returns False)\<rparr>)"
  "thread_step CloseThread
     (both_called (fresh_stream\<lparr>err := Some Canceled\<rparr>) (cancel idle_shared)
        \<lparr>next_pc := Finished (Returns False)\<rparr>)
   = Some (both_called (fresh_stream\<lparr>err := Some Canceled\<rparr>) (cancel idle_shared)
             \<lparr>mu := True, next_pc := Finished (Returns False), close_pc := Holding\<rparr>)"
  by (simp_all add: both_called_def fresh_stream_def idle_shared_def cancel_def Next_def
        recv_ready_def done_ready_def)

section \<open>The event type constants\<close>

text \<open>
  C8 (as stated): the type of every decoded event is one of ten constants whose literal
  wire values are \<open>run.init\<close>, \<open>run.done\<close>, ... .  Neither half holds.  The source spells
  every constant with the prefix \<open>asgard.\<close>, so none of the literals of the claim is a
  declared value.  And the event type is a plain string that nothing checks: a frame
  that decodes to an event of type \<open>bogus\<close>, which is none of the constants, is handed
  to the consumer like any other event.
\<close>

theorem C8_not_the_claimed_enumeration_counterexample:
  "SseEventTypeRunInit \<noteq> ''run.init'' \<and> ''run.init'' \<notin> set SseEventType_consts
   \<and> ''run.error'' \<notin> set SseEventType_consts
   \<and> EventType bogus_event \<notin> set SseEventType_consts
   \<and> fst (run [ProducerStep, CallNext CaseRecv]
            (start (\<lambda>d. Inr bogus_event) [''f''] (Some EOF) fresh_stream))
       = [NextReturned True (Some bogus_event) None]"
proof (intro conjI)
  show "SseEventTypeRunInit \<noteq> ''run.init''" by (simp add: SseEventTypeRunInit_def)
  show "''run.init'' \<notin> set SseEventType_consts"
    by (simp add: SseEventType_consts_def SseEventType_defs)
  show "''run.error'' \<notin> set SseEventType_consts"
    by (simp add: SseEventType_consts_def SseEventType_defs)
  show "EventType bogus_event \<notin> set SseEventType_consts"
    by (simp add: bogus_event_def event_of_def SseEventType_consts_def SseEventType_defs)
  show "fst (run [ProducerStep, CallNext CaseRecv]
            (start (\<lambda>d. Inr bogus_event) [''f''] (Some EOF) fresh_stream))
       = [NextReturned True (Some bogus_event) None]"
    by code_simp
qed

lemma RunError_is_declared: "SseEventTypeRunError \<in> set SseEventType_consts"
  by (simp add: SseEventType_consts_def)

lemma Next_delivers:
  assumes "\<not> closed s" "err s = None" "eventChan sh = ev # rest"
          "ConnectionError ev = None" "Event ev = Some e"
          "EventType e \<noteq> SseEventTypeRunError"
          "\<not> done_ready sh \<or> pick = CaseRecv"
  shows "Next pick s sh = (Returns True, s\<lparr>currentEvent := Some e\<rparr>, sh\<lparr>eventChan := rest\<rparr>)"
  using assms by (auto simp: Next_def Next_recv_def recv_ready_def Let_def)

text \<open>
  C8 (amended): the constant block declares exactly ten pairwise distinct string
  constants, and their literal values are the ten names of the claim, each prefixed
  with \<open>asgard.\<close>, in the claim's order.  The enumeration is not closed: an event
  whose decoded type is none of the ten is delivered by \<^verbatim>\<open>Next\<close> as the current
  event.
\<close>

theorem C8_event_type_constants:
  assumes "\<not> closed s" and "err s = None"
      and "eventChan sh = subscriber unmarshal d # rest"
      and "unmarshal d = Inr e"
      and "EventType e \<notin> set SseEventType_consts"
      and "\<not> done_ready sh \<or> pick = CaseRecv"
  shows "SseEventType_consts =
           map ((@) ''asgard.'')
             [''run.init'', ''run.done'', ''run.error'', ''process.start'', ''process.complete'',
              ''message.start'', ''message.delta'', ''message.complete'',
              ''tool_call.start'', ''tool_call.complete'']
       \<and> length SseEventType_consts = 10
       \<and> distinct SseEventType_consts
       \<and> Next pick s sh
           = (Returns True, s\<lparr>currentEvent := Some e\<rparr>, sh\<lparr>eventChan := rest\<rparr>)"
proof (intro conjI)
  show "SseEventType_consts =
           map ((@) ''asgard.'')
             [''run.init'', ''run.done'', ''run.error'', ''process.start'', ''process.complete'',
              ''message.start'', ''message.delta'', ''message.complete'',
              ''tool_call.start'', ''tool_call.complete'']"
    by (simp add: SseEventType_consts_def SseEventType_defs)
  show "length SseEventType_consts = 10" by (simp add: SseEventType_consts_def)
  show "distinct SseEventType_consts" by (simp add: SseEventType_consts_def SseEventType_defs)
  have ev: "ConnectionError (subscriber unmarshal d) = None"
           "Event (subscriber unmarshal d) = Some e"
    unfolding subscriber_Inr [of unmarshal d e, OF assms(4)] event_item_def by simp_all
  have ne: "EventType e \<noteq> SseEventTypeRunError"
    using assms(5) RunError_is_declared by auto
  show "Next pick s sh
           = (Returns True, s\<lparr>currentEvent := Some e\<rparr>, sh\<lparr>eventChan := rest\<rparr>)"
    by (rule Next_delivers [OF assms(1,2,3) ev ne assms(6)])
qed

lemma bogus_not_declared: "EventType bogus_event \<notin> set SseEventType_consts"
  by (simp add: bogus_event_def event_of_def SseEventType_consts_def SseEventType_defs)

theorem C8_event_type_constants_witness:
  "length SseEventType_consts = 10
   \<and> distinct SseEventType_consts
   \<and> Next CaseRecv fresh_stream
        \<lparr>eventChan = subscriber (\<lambda>d. Inr bogus_event) ''f'' # [],
         eventChan_closed = False, ctx_Err = None\<rparr>
       = (Returns True, fresh_stream\<lparr>currentEvent := Some bogus_event\<rparr>,
          \<lparr>eventChan = subscriber (\<lambda>d. Inr bogus_event) ''f'' # [],
           eventChan_closed = False, ctx_Err = None\<rparr>\<lparr>eventChan := []\<rparr>)"
proof -
  have c: "eventChan \<lparr>eventChan = subscriber (\<lambda>d. Inr bogus_event) ''f'' # [],
             eventChan_closed = False, ctx_Err = None\<rparr>
           = subscriber (\<lambda>d. Inr bogus_event) ''f'' # []" by simp
  have p: "\<not> done_ready \<lparr>eventChan = subscriber (\<lambda>d. Inr bogus_event) ''f'' # [],
             eventChan_closed = False, ctx_Err = None\<rparr> \<or> CaseRecv = CaseRecv" by simp
  show ?thesis
    by (rule conjunct2 [OF C8_event_type_constants
          [of fresh_stream _ "\<lambda>d. Inr bogus_event" "''f''" "[]" bogus_event CaseRecv,
           OF fresh_stream_open(1,2) c refl bogus_not_declared p]])
qed


end
